theory Spec2Isabelle
  imports Main "HOL-Library.AList"
begin

section \<open>Exceptions, console messages and recorded events\<close>

text \<open>
  The two menu tools of the repository (\<^verbatim>\<open>terminal_storage_account.py\<close> for blob storage and
  \<^verbatim>\<open>cli_tool_cosmos_db.py\<close> for the document database) read lines from the console, call the
  cloud SDK and print. The embedding threads a \<open>world\<close> through every handler: the lines the
  operator will still type, the events emitted so far (SDK requests, printed messages,
  sleeps) in chronological order, and the state of the cloud service, whose type \<open>'s\<close> and
  behaviour are left arbitrary.

  A Python exception is a value of type \<open>exn\<close>; a computation returns \<open>Inl e\<close> when it
  raises \<open>e\<close>. \<open>EOFError\<close> is what \<^verbatim>\<open>input()\<close> raises when no line is left.
\<close>

datatype exn =
    ResourceNotFoundError
  | CosmosResourceNotFoundError
  | EOFError
  | ValueError
  | OtherException string

text \<open>
  \<^verbatim>\<open>except ResourceNotFoundError\<close> also catches the Cosmos subclass; the tuple
  \<^verbatim>\<open>(ResourceNotFoundError, CosmosResourceNotFoundError)\<close> catches the same two.
\<close>

fun is_resource_not_found :: "exn \<Rightarrow> bool" where
  "is_resource_not_found ResourceNotFoundError = True"
| "is_resource_not_found CosmosResourceNotFoundError = True"
| "is_resource_not_found _ = False"

text \<open>
  The part of \<^verbatim>\<open>props.copy\<close> that \<^verbatim>\<open>wait_for_copy\<close> reads. The status is compared with three
  string literals only; a status that the SDK leaves unset behaves like any other string
  that is none of the three.
\<close>

record copy_props =
  copy_status :: string
  copy_status_description :: string

text \<open>
  One constructor for each \<^verbatim>\<open>print\<close> statement of the modelled handlers, carrying the values
  that the f-string interpolates.
\<close>

datatype msg =
    MsgCopyStatus string
  | MsgCopyCompleted
  | MsgCopyFailed string
  | MsgErrorDetails string
  | MsgCopyTimeout
  | MsgMoveSpecificTitle
  | MsgBlobNotFound string string
  | MsgStartingCopy string string string
  | MsgDeletingOriginalFrom string string
  | MsgMoveCompleted
  | MsgMoveFailed
  | MsgContainerOrBlobNotFound
  | MsgUnexpected exn
  | MsgMoveAllTitle
  | MsgOperationCancelled
  | MsgNoBlobsFound string
  | MsgFoundToMove nat
  | MsgMoving nat nat string
  | MsgDeletingOriginal string
  | MsgFailedToMove string
  | MsgAllMovesCompleted
  | MsgSourceContainerNotFound string
  | MsgSetMetadataTitle
  | MsgBlobInContainerNotFound string string
  | MsgEnterPairs
  | MsgNoMetadataEntered
  | MsgSettingFollowing
  | MsgMetadataPair string string
  | MsgMetadataSet
  | MsgMetadataCancelled
  | MsgDeleteItemTitle
  | MsgItemDeleted
  | MsgItemNotFound string
  | MsgErrorOccurred exn

text \<open>
  SDK requests name a blob by container and blob name. \<open>StartCopy dc db sc sb\<close> is
  \<^verbatim>\<open>start_copy_from_url\<close> issued on the destination blob \<open>(dc, db)\<close> with the URL of the
  source blob \<open>(sc, sb)\<close>; \<open>DeleteItem db c i pk\<close> is the Cosmos \<^verbatim>\<open>delete_item\<close>.
\<close>

datatype event =
    Exists string string
  | StartCopy string string string string
  | GetProps string string
  | DeleteBlob string string
  | ListBlobs string
  | SetMetadata string string "(string \<times> string) list"
  | DeleteItem string string string string
  | Sleep nat
  | Print msg

section \<open>The cloud SDK as a parameter\<close>

text \<open>
  The SDK is an external collaborator: each request maps the service state to an outcome
  (a result or a raised exception) and a new state. Building a blob or container client
  (\<^verbatim>\<open>get_blob_client\<close>, \<^verbatim>\<open>get_container_client\<close>) sends nothing and leaves the service as it
  is, but the SDK may refuse the names and raise (it raises \<^verbatim>\<open>ValueError\<close> on an empty name);
  the handle it returns is the names themselves. The Cosmos clients
  (\<^verbatim>\<open>get_database_client\<close>, \<^verbatim>\<open>get_container_client\<close>) take any name.
\<close>

record 's blob_sdk =
  sdk_get_blob_client :: "string \<Rightarrow> string \<Rightarrow> exn + unit"
  sdk_get_container_client :: "string \<Rightarrow> exn + unit"
  sdk_exists :: "string \<Rightarrow> string \<Rightarrow> 's \<Rightarrow> (exn + bool) \<times> 's"
  sdk_start_copy_from_url ::
    "string \<Rightarrow> string \<Rightarrow> string \<Rightarrow> string \<Rightarrow> 's \<Rightarrow> (exn + unit) \<times> 's"
  sdk_get_blob_properties :: "string \<Rightarrow> string \<Rightarrow> 's \<Rightarrow> (exn + copy_props) \<times> 's"
  sdk_delete_blob :: "string \<Rightarrow> string \<Rightarrow> 's \<Rightarrow> (exn + unit) \<times> 's"
  sdk_list_blobs :: "string \<Rightarrow> 's \<Rightarrow> (exn + string list) \<times> 's"
  sdk_set_blob_metadata ::
    "string \<Rightarrow> string \<Rightarrow> (string \<times> string) list \<Rightarrow> 's \<Rightarrow> (exn + unit) \<times> 's"

record 's cosmos_sdk =
  sdk_delete_item :: "string \<Rightarrow> string \<Rightarrow> string \<Rightarrow> string \<Rightarrow> 's \<Rightarrow> (exn + unit) \<times> 's"

record 's world =
  inputs :: "string list"
  trace :: "event list"
  cloud :: 's

type_synonym ('s, 'a) io = "'s world \<Rightarrow> (exn + 'a) \<times> 's world"

definition emit :: "event \<Rightarrow> 's world \<Rightarrow> 's world" where
  "emit ev w = w\<lparr>trace := trace w @ [ev]\<rparr>"

definition return_io :: "'a \<Rightarrow> ('s, 'a) io" where
  "return_io a w = (Inr a, w)"

definition bind_io :: "('s, 'a) io \<Rightarrow> ('a \<Rightarrow> ('s, 'b) io) \<Rightarrow> ('s, 'b) io" where
  "bind_io m f w = (case m w of (Inl e, w') \<Rightarrow> (Inl e, w') | (Inr a, w') \<Rightarrow> f a w')"

definition then_io :: "('s, 'a) io \<Rightarrow> ('s, 'b) io \<Rightarrow> ('s, 'b) io" where
  "then_io m k = bind_io m (\<lambda>_. k)"

text \<open>\<^verbatim>\<open>try: m except ... as e: h e\<close>, for handlers that together catch every \<open>exn\<close>.\<close>

definition try_except :: "('s, 'a) io \<Rightarrow> (exn \<Rightarrow> ('s, 'a) io) \<Rightarrow> ('s, 'a) io" where
  "try_except m h w = (case m w of (Inl e, w') \<Rightarrow> h e w' | (Inr a, w') \<Rightarrow> (Inr a, w'))"

definition print_msg :: "msg \<Rightarrow> ('s, unit) io" where
  "print_msg m w = (Inr (), emit (Print m) w)"

definition sleep :: "nat \<Rightarrow> ('s, unit) io" where
  "sleep n w = (Inr (), emit (Sleep n) w)"

text \<open>\<^verbatim>\<open>input(prompt)\<close>: the next line of the console; the prompt text is not recorded.\<close>

definition input_line :: "('s, string) io" where
  "input_line w =
     (case inputs w of
        [] \<Rightarrow> (Inl EOFError, w)
      | l # ls \<Rightarrow> (Inr l, w\<lparr>inputs := ls\<rparr>))"

text \<open>An SDK request: the event is recorded, the service answers and moves on.\<close>

definition request :: "event \<Rightarrow> ('s \<Rightarrow> (exn + 'a) \<times> 's) \<Rightarrow> ('s, 'a) io" where
  "request ev f w = (case f (cloud w) of (r, s') \<Rightarrow> (r, (emit ev w)\<lparr>cloud := s'\<rparr>))"

text \<open>Building a client: no event, no change of the service, possibly an exception.\<close>

definition get_blob_client :: "'s blob_sdk \<Rightarrow> string \<Rightarrow> string \<Rightarrow> ('s, unit) io" where
  "get_blob_client sdk c b w = (sdk_get_blob_client sdk c b, w)"

definition get_container_client :: "'s blob_sdk \<Rightarrow> string \<Rightarrow> ('s, unit) io" where
  "get_container_client sdk c w = (sdk_get_container_client sdk c, w)"

definition call_exists :: "'s blob_sdk \<Rightarrow> string \<Rightarrow> string \<Rightarrow> ('s, bool) io" where
  "call_exists sdk c b = request (Exists c b) (sdk_exists sdk c b)"

definition call_start_copy_from_url ::
  "'s blob_sdk \<Rightarrow> string \<Rightarrow> string \<Rightarrow> string \<Rightarrow> string \<Rightarrow> ('s, unit) io" where
  "call_start_copy_from_url sdk dc db sc sb =
     request (StartCopy dc db sc sb) (sdk_start_copy_from_url sdk dc db sc sb)"

definition call_get_blob_properties ::
  "'s blob_sdk \<Rightarrow> string \<Rightarrow> string \<Rightarrow> ('s, copy_props) io" where
  "call_get_blob_properties sdk c b = request (GetProps c b) (sdk_get_blob_properties sdk c b)"

definition call_delete_blob :: "'s blob_sdk \<Rightarrow> string \<Rightarrow> string \<Rightarrow> ('s, unit) io" where
  "call_delete_blob sdk c b = request (DeleteBlob c b) (sdk_delete_blob sdk c b)"

definition call_list_blobs :: "'s blob_sdk \<Rightarrow> string \<Rightarrow> ('s, string list) io" where
  "call_list_blobs sdk c = request (ListBlobs c) (sdk_list_blobs sdk c)"

definition call_set_blob_metadata ::
  "'s blob_sdk \<Rightarrow> string \<Rightarrow> string \<Rightarrow> (string \<times> string) list \<Rightarrow> ('s, unit) io" where
  "call_set_blob_metadata sdk c b md =
     request (SetMetadata c b md) (sdk_set_blob_metadata sdk c b md)"

definition call_delete_item ::
  "'s cosmos_sdk \<Rightarrow> string \<Rightarrow> string \<Rightarrow> string \<Rightarrow> string \<Rightarrow> ('s, unit) io" where
  "call_delete_item sdk db c i pk = request (DeleteItem db c i pk) (sdk_delete_item sdk db c i pk)"

section \<open>\<^verbatim>\<open>str.lower\<close>\<close>

text \<open>
  \<^verbatim>\<open>confirm.lower()\<close> is compared with \<^verbatim>\<open>'y'\<close> only. The model lowers the ASCII letters
  \<^verbatim>\<open>A\<close> to \<^verbatim>\<open>Z\<close> and keeps every other character, which decides that comparison as Python
  does: \<^verbatim>\<open>Y\<close> is the only other character whose lower case is \<^verbatim>\<open>y\<close>.
\<close>

definition lower_char :: "char \<Rightarrow> char" where
  "lower_char ch =
     (let n = (of_char ch :: nat) in if 65 \<le> n \<and> n \<le> 90 then char_of (n + 32) else ch)"

definition str_lower :: "string \<Rightarrow> string" where
  "str_lower s = map lower_char s"

section \<open>Blob tool: \<^verbatim>\<open>wait_for_copy\<close>\<close>

text \<open>
  The \<^verbatim>\<open>while True\<close> loop of \<^verbatim>\<open>wait_for_copy\<close>, with the local \<^verbatim>\<open>count\<close> as an argument.
  The test \<^verbatim>\<open>count > 10\<close> comes after the two status tests and before the increment.
\<close>

function wait_loop :: "'s blob_sdk \<Rightarrow> string \<Rightarrow> string \<Rightarrow> nat \<Rightarrow> ('s, bool) io" where
  "wait_loop sdk c b count w =
     (case call_get_blob_properties sdk c b w of
        (Inl e, w1) \<Rightarrow> (Inl e, w1)
      | (Inr props, w1) \<Rightarrow>
          (let status = copy_status props;
               w2 = emit (Print (MsgCopyStatus status)) w1
           in if status = ''success'' then
                (Inr True, emit (Print MsgCopyCompleted) w2)
              else if status \<in> set [''failed'', ''aborted''] then
                (Inr False,
                 emit (Print (MsgErrorDetails (copy_status_description props)))
                   (emit (Print (MsgCopyFailed status)) w2))
              else if count > 10 then
                (Inr False, emit (Print MsgCopyTimeout) w2)
              else wait_loop sdk c b (count + 1) (emit (Sleep 3) w2)))"
  by pat_completeness auto
termination
  by (relation "measure (\<lambda>(sdk, c, b, count, w). 11 - count)") auto

declare wait_loop.simps [simp del]

definition wait_for_copy :: "'s blob_sdk \<Rightarrow> string \<Rightarrow> string \<Rightarrow> ('s, bool) io" where
  "wait_for_copy sdk c b = wait_loop sdk c b 0"

section \<open>Blob tool: \<^verbatim>\<open>move_specific_blob\<close>\<close>

text \<open>The \<^verbatim>\<open>try\<close> statement of \<^verbatim>\<open>move_specific_blob\<close> (lines 110 to 131).\<close>

definition move_specific_try ::
  "'s blob_sdk \<Rightarrow> string \<Rightarrow> string \<Rightarrow> string \<Rightarrow> ('s, unit) io" where
  "move_specific_try sdk source_container blob_name dest_container =
     try_except
       (then_io (get_blob_client sdk source_container blob_name)
       (bind_io (call_exists sdk source_container blob_name) (\<lambda>found.
          if \<not> found then print_msg (MsgBlobNotFound blob_name source_container)
          else
            then_io (get_blob_client sdk dest_container blob_name)
           (then_io (print_msg (MsgStartingCopy blob_name source_container dest_container))
           (then_io (call_start_copy_from_url sdk dest_container blob_name
                       source_container blob_name)
           (bind_io (wait_for_copy sdk dest_container blob_name) (\<lambda>ok.
              if ok then
                then_io (print_msg (MsgDeletingOriginalFrom blob_name source_container))
               (then_io (call_delete_blob sdk source_container blob_name)
                        (print_msg MsgMoveCompleted))
              else print_msg MsgMoveFailed)))))))
       (\<lambda>e. if is_resource_not_found e then print_msg MsgContainerOrBlobNotFound
            else print_msg (MsgUnexpected e))"

definition move_specific_blob :: "'s blob_sdk \<Rightarrow> ('s, unit) io" where
  "move_specific_blob sdk =
     then_io (print_msg MsgMoveSpecificTitle)
    (bind_io input_line (\<lambda>source_container.
     bind_io input_line (\<lambda>blob_name.
     bind_io input_line (\<lambda>dest_container.
       move_specific_try sdk source_container blob_name dest_container))))"

section \<open>Blob tool: \<^verbatim>\<open>move_all_blobs\<close>\<close>

text \<open>
  The \<^verbatim>\<open>for i, blob in enumerate(blob_list)\<close> loop: \<open>i\<close> is the index of the head of the
  remaining list. An exception raised inside the body leaves the loop.
\<close>

fun move_all_loop ::
  "'s blob_sdk \<Rightarrow> string \<Rightarrow> string \<Rightarrow> nat \<Rightarrow> nat \<Rightarrow> string list \<Rightarrow> ('s, unit) io" where
  "move_all_loop sdk source_container dest_container total_blobs i [] = return_io ()"
| "move_all_loop sdk source_container dest_container total_blobs i (name # rest) =
     then_io (print_msg (MsgMoving (i + 1) total_blobs name))
    (then_io (get_blob_client sdk source_container name)
    (then_io (get_blob_client sdk dest_container name)
    (then_io (call_start_copy_from_url sdk dest_container name source_container name)
    (bind_io (wait_for_copy sdk dest_container name) (\<lambda>ok.
     then_io
       (if ok then
          then_io (print_msg (MsgDeletingOriginal name))
                  (call_delete_blob sdk source_container name)
        else print_msg (MsgFailedToMove name))
       (move_all_loop sdk source_container dest_container total_blobs (i + 1) rest))))))"

text \<open>The \<^verbatim>\<open>try\<close> statement of \<^verbatim>\<open>move_all_blobs\<close> (lines 145 to 172).\<close>

definition move_all_try :: "'s blob_sdk \<Rightarrow> string \<Rightarrow> string \<Rightarrow> ('s, unit) io" where
  "move_all_try sdk source_container dest_container =
     try_except
       (then_io (get_container_client sdk source_container)
       (bind_io (call_list_blobs sdk source_container) (\<lambda>blob_list.
          let total_blobs = length blob_list in
          if total_blobs = 0 then print_msg (MsgNoBlobsFound source_container)
          else
            then_io (print_msg (MsgFoundToMove total_blobs))
           (then_io (move_all_loop sdk source_container dest_container total_blobs 0 blob_list)
                    (print_msg MsgAllMovesCompleted)))))
       (\<lambda>e. if is_resource_not_found e
            then print_msg (MsgSourceContainerNotFound source_container)
            else print_msg (MsgUnexpected e))"

definition move_all_blobs :: "'s blob_sdk \<Rightarrow> ('s, unit) io" where
  "move_all_blobs sdk =
     then_io (print_msg MsgMoveAllTitle)
    (bind_io input_line (\<lambda>source_container.
     bind_io input_line (\<lambda>dest_container.
     bind_io input_line (\<lambda>confirm.
       if str_lower confirm \<noteq> ''y'' then print_msg MsgOperationCancelled
       else move_all_try sdk source_container dest_container))))"

section \<open>Blob tool: \<^verbatim>\<open>set_blob_metadata\<close>\<close>

text \<open>
  The \<^verbatim>\<open>while True\<close> loop that reads key and value lines until an empty key. The dictionary is
  an association list in insertion order; \<^verbatim>\<open>metadata[key] = value\<close> replaces the value of a
  key that is already there. The loop ends with the console at the latest.
\<close>

function metadata_loop ::
  "(string \<times> string) list \<Rightarrow> ('s, (string \<times> string) list) io" where
  "metadata_loop metadata w =
     (case input_line w of
        (Inl e, w1) \<Rightarrow> (Inl e, w1)
      | (Inr key, w1) \<Rightarrow>
          if key = [] then (Inr metadata, w1)
          else
            (case input_line w1 of
               (Inl e, w2) \<Rightarrow> (Inl e, w2)
             | (Inr val, w2) \<Rightarrow> metadata_loop (AList.update key val metadata) w2))"
  by pat_completeness auto
termination
  by (relation "measure (\<lambda>(metadata, w). length (inputs w))")
     (auto simp: input_line_def split: list.splits)

declare metadata_loop.simps [simp del]

text \<open>\<^verbatim>\<open>for k, v in metadata.items(): print(...)\<close>\<close>

fun print_pairs :: "(string \<times> string) list \<Rightarrow> ('s, unit) io" where
  "print_pairs [] = return_io ()"
| "print_pairs ((k, v) # rest) = then_io (print_msg (MsgMetadataPair k v)) (print_pairs rest)"

text \<open>The \<^verbatim>\<open>try\<close> statement of \<^verbatim>\<open>set_blob_metadata\<close> (lines 236 to 267).\<close>

definition set_blob_metadata_try :: "'s blob_sdk \<Rightarrow> string \<Rightarrow> string \<Rightarrow> ('s, unit) io" where
  "set_blob_metadata_try sdk container_name blob_name =
     try_except
       (then_io (get_blob_client sdk container_name blob_name)
       (bind_io (call_exists sdk container_name blob_name) (\<lambda>found.
          if \<not> found then print_msg (MsgBlobInContainerNotFound blob_name container_name)
          else
            then_io (print_msg MsgEnterPairs)
           (bind_io (metadata_loop []) (\<lambda>metadata.
              if metadata = [] then print_msg MsgNoMetadataEntered
              else
                then_io (print_msg MsgSettingFollowing)
               (then_io (print_pairs metadata)
               (bind_io input_line (\<lambda>confirm.
                  if str_lower confirm = ''y'' then
                    then_io (call_set_blob_metadata sdk container_name blob_name metadata)
                            (print_msg MsgMetadataSet)
                  else print_msg MsgMetadataCancelled))))))))
       (\<lambda>e. print_msg (MsgUnexpected e))"

definition set_blob_metadata :: "'s blob_sdk \<Rightarrow> ('s, unit) io" where
  "set_blob_metadata sdk =
     then_io (print_msg MsgSetMetadataTitle)
    (bind_io input_line (\<lambda>container_name.
     bind_io input_line (\<lambda>blob_name.
       set_blob_metadata_try sdk container_name blob_name)))"

section \<open>Document database tool: \<^verbatim>\<open>delete_item\<close>\<close>

definition delete_item :: "'s cosmos_sdk \<Rightarrow> ('s, unit) io" where
  "delete_item sdk =
     then_io (print_msg MsgDeleteItemTitle)
    (bind_io input_line (\<lambda>db_name.
     bind_io input_line (\<lambda>container_name.
     bind_io input_line (\<lambda>item_id.
     bind_io input_line (\<lambda>part_key.
     bind_io input_line (\<lambda>confirm.
       if str_lower confirm \<noteq> ''y'' then print_msg MsgOperationCancelled
       else
         try_except
           (then_io (call_delete_item sdk db_name container_name item_id part_key)
                    (print_msg MsgItemDeleted))
           (\<lambda>e. if is_resource_not_found e then print_msg (MsgItemNotFound item_id)
                else print_msg (MsgErrorOccurred e))))))))"

section \<open>Reading a run\<close>

text \<open>The events that a run from \<open>w\<close> to \<open>w'\<close> has added.\<close>

definition new_events :: "'s world \<Rightarrow> 's world \<Rightarrow> event list" where
  "new_events w w' = drop (length (trace w)) (trace w')"

fun is_fetch :: "event \<Rightarrow> bool" where
  "is_fetch (GetProps c b) = True"
| "is_fetch _ = False"

fun is_copy :: "event \<Rightarrow> bool" where
  "is_copy (StartCopy dc db sc sb) = True"
| "is_copy _ = False"

fun is_delete :: "event \<Rightarrow> bool" where
  "is_delete (DeleteBlob c b) = True"
| "is_delete _ = False"

fun is_set_metadata :: "event \<Rightarrow> bool" where
  "is_set_metadata (SetMetadata c b md) = True"
| "is_set_metadata _ = False"

fun is_request :: "event \<Rightarrow> bool" where
  "is_request (Print m) = False"
| "is_request (Sleep n) = False"
| "is_request _ = True"

definition fetch_calls :: "event list \<Rightarrow> event list" where
  "fetch_calls evs = filter is_fetch evs"

definition copy_calls :: "event list \<Rightarrow> event list" where
  "copy_calls evs = filter is_copy evs"

definition delete_calls :: "event list \<Rightarrow> event list" where
  "delete_calls evs = filter is_delete evs"

definition requests :: "event list \<Rightarrow> event list" where
  "requests evs = filter is_request evs"

text \<open>
  The statuses that \<^verbatim>\<open>wait_for_copy\<close> has read: it prints each one right after the fetch
  (\<^verbatim>\<open>Copy status: '...'\<close>).
\<close>

fun observed :: "event list \<Rightarrow> string list" where
  "observed [] = []"
| "observed (Print (MsgCopyStatus st) # evs) = st # observed evs"
| "observed (ev # evs) = observed evs"

definition terminal :: "string \<Rightarrow> bool" where
  "terminal st \<longleftrightarrow> st = ''success'' \<or> st = ''failed'' \<or> st = ''aborted''"

text \<open>The world at the start of a session: nothing emitted yet.\<close>

definition console :: "string list \<Rightarrow> 's \<Rightarrow> 's world" where
  "console ls s = \<lparr>inputs = ls, trace = [], cloud = s\<rparr>"

text \<open>
  A small service for concrete runs. Its state is the list of copy statuses that the next
  property fetches will report (\<^verbatim>\<open>pending\<close> once the list is used up); existence checks
  answer \<open>found\<close>, listings return \<open>names\<close>, a copy request has the outcome \<open>copying\<close>, and
  a client is refused with \<^verbatim>\<open>ValueError\<close> when a name is empty.
\<close>

definition demo_sdk :: "bool \<Rightarrow> string list \<Rightarrow> exn + unit \<Rightarrow> string list blob_sdk" where
  "demo_sdk found names copying =
     \<lparr> sdk_get_blob_client = (\<lambda>c b. if c = [] \<or> b = [] then Inl ValueError else Inr ()),
       sdk_get_container_client = (\<lambda>c. if c = [] then Inl ValueError else Inr ()),
       sdk_exists = (\<lambda>c b s. (Inr found, s)),
       sdk_start_copy_from_url = (\<lambda>dc db sc sb s. (copying, s)),
       sdk_get_blob_properties = (\<lambda>c b s.
          case s of
            [] \<Rightarrow> (Inr \<lparr>copy_status = ''pending'', copy_status_description = []\<rparr>, [])
          | st # rest \<Rightarrow> (Inr \<lparr>copy_status = st, copy_status_description = []\<rparr>, rest)),
       sdk_delete_blob = (\<lambda>c b s. (Inr (), s)),
       sdk_list_blobs = (\<lambda>c s. (Inr names, s)),
       sdk_set_blob_metadata = (\<lambda>c b md s. (Inr (), s)) \<rparr>"

definition demo_cosmos :: "nat cosmos_sdk" where
  "demo_cosmos = \<lparr> sdk_delete_item = (\<lambda>db c i pk s. (Inr (), Suc s)) \<rparr>"

text \<open>One round of the polling loop that ends in the sleep, and the ways the last round ends.\<close>

definition poll_round :: "string \<Rightarrow> string \<Rightarrow> string \<Rightarrow> event list" where
  "poll_round c b st = [GetProps c b, Print (MsgCopyStatus st), Sleep 3]"

definition wait_ending :: "string \<Rightarrow> string \<Rightarrow> nat \<Rightarrow> exn + bool \<Rightarrow> event list \<Rightarrow> bool" where
  "wait_ending c b count r fin \<longleftrightarrow>
     (\<exists>e. r = Inl e \<and> fin = [GetProps c b]) \<or>
     (r = Inr True \<and>
      fin = [GetProps c b, Print (MsgCopyStatus ''success''), Print MsgCopyCompleted]) \<or>
     (\<exists>st d. (st = ''failed'' \<or> st = ''aborted'') \<and> r = Inr False \<and>
        fin = [GetProps c b, Print (MsgCopyStatus st), Print (MsgCopyFailed st),
               Print (MsgErrorDetails d)]) \<or>
     (\<exists>st. \<not> terminal st \<and> 10 < count \<and> r = Inr False \<and>
        fin = [GetProps c b, Print (MsgCopyStatus st), Print MsgCopyTimeout])"

definition after_poll :: "string \<Rightarrow> string \<Rightarrow> copy_props \<Rightarrow> 's \<Rightarrow> 's world \<Rightarrow> 's world" where
  "after_poll c b p s' w =
     emit (Print (MsgCopyStatus (copy_status p))) ((emit (GetProps c b) w)\<lparr>cloud := s'\<rparr>)"

text \<open>A service on which a copy never leaves \<^verbatim>\<open>pending\<close>; its state counts the fetches.\<close>

definition stuck_sdk :: "nat blob_sdk" where
  "stuck_sdk =
     \<lparr> sdk_get_blob_client = (\<lambda>c b. if c = [] \<or> b = [] then Inl ValueError else Inr ()),
       sdk_get_container_client = (\<lambda>c. if c = [] then Inl ValueError else Inr ()),
       sdk_exists = (\<lambda>c b s. (Inr True, s)),
       sdk_start_copy_from_url = (\<lambda>dc db sc sb s. (Inr (), s)),
       sdk_get_blob_properties = (\<lambda>c b s.
          (Inr \<lparr>copy_status = ''pending'', copy_status_description = []\<rparr>, Suc s)),
       sdk_delete_blob = (\<lambda>c b s. (Inr (), s)),
       sdk_list_blobs = (\<lambda>c s. (Inr [], s)),
       sdk_set_blob_metadata = (\<lambda>c b md s. (Inr (), s)) \<rparr>"

text \<open>
  The answers of the service to up to \<open>n\<close> successive property fetches from state \<open>s\<close>: the
  status each one returns, or the exception that the last one raises. An answer is pending
  when it is a status other than the three terminal strings. \<open>verdict\<close> reads a list of
  answers from the left up to the first one that is not pending.
\<close>

fun polled :: "'s blob_sdk \<Rightarrow> string \<Rightarrow> string \<Rightarrow> nat \<Rightarrow> 's \<Rightarrow> (exn + string) list" where
  "polled sdk c b 0 s = []"
| "polled sdk c b (Suc n) s =
     (case sdk_get_blob_properties sdk c b s of
        (Inl e, s') \<Rightarrow> [Inl e]
      | (Inr props, s') \<Rightarrow> Inr (copy_status props) # polled sdk c b n s')"

fun pending :: "exn + string \<Rightarrow> bool" where
  "pending (Inl e) = False"
| "pending (Inr st) = (\<not> terminal st)"

fun verdict :: "(exn + string) list \<Rightarrow> exn + bool" where
  "verdict [] = Inr False"
| "verdict (Inl e # answers) = Inl e"
| "verdict (Inr st # answers) =
     (if st = ''success'' then Inr True
      else if st = ''failed'' \<or> st = ''aborted'' then Inr False
      else verdict answers)"

text \<open>A world after more events and a change of the service state.\<close>

definition advance :: "'s world \<Rightarrow> event list \<Rightarrow> 's \<Rightarrow> 's world" where
  "advance w evs s = w\<lparr>trace := trace w @ evs, cloud := s\<rparr>"

text \<open>
  The success line of \<^verbatim>\<open>wait_for_copy\<close> is printed exactly when it returns \<^verbatim>\<open>True\<close>, so the
  number of such lines in a run is the number of copies that were reported successful.
\<close>

definition success_reports :: "event list \<Rightarrow> event list" where
  "success_reports evs = filter (\<lambda>ev. ev = Print MsgCopyCompleted) evs"

text \<open>The lines printed by the \<^verbatim>\<open>except\<close> clauses of the two move handlers.\<close>

fun is_error_report :: "event \<Rightarrow> bool" where
  "is_error_report (Print (MsgUnexpected e)) = True"
| "is_error_report (Print (MsgSourceContainerNotFound c)) = True"
| "is_error_report (Print MsgContainerOrBlobNotFound) = True"
| "is_error_report _ = False"

definition error_reports :: "event list \<Rightarrow> event list" where
  "error_reports evs = filter is_error_report evs"

fun is_missing_report :: "event \<Rightarrow> bool" where
  "is_missing_report (Print (MsgBlobNotFound b c)) = True"
| "is_missing_report _ = False"

definition missing_reports :: "event list \<Rightarrow> event list" where
  "missing_reports evs = filter is_missing_report evs"

fun is_exists :: "event \<Rightarrow> bool" where
  "is_exists (Exists c b) = True"
| "is_exists _ = False"

definition without_exists :: "event list \<Rightarrow> event list" where
  "without_exists evs = filter (\<lambda>ev. \<not> is_exists ev) evs"

text \<open>
  The bulk move in the words of the specification (section 4.3): enumerate the source
  container into a sequence, then apply the single-object move workflow of section 4.2,
  existence check included, to each element in order. That workflow, given the three names,
  is \<open>move_specific_try\<close>.
\<close>

fun spec_move_each :: "'s blob_sdk \<Rightarrow> string \<Rightarrow> string \<Rightarrow> string list \<Rightarrow> ('s, unit) io" where
  "spec_move_each sdk source_container dest_container [] = return_io ()"
| "spec_move_each sdk source_container dest_container (name # rest) =
     then_io (move_specific_try sdk source_container name dest_container)
             (spec_move_each sdk source_container dest_container rest)"

definition spec_bulk_move :: "'s blob_sdk \<Rightarrow> string \<Rightarrow> string \<Rightarrow> ('s, unit) io" where
  "spec_bulk_move sdk source_container dest_container =
     bind_io (then_io (get_container_client sdk source_container)
                      (call_list_blobs sdk source_container))
       (spec_move_each sdk source_container dest_container)"

text \<open>
  What a call of \<^verbatim>\<open>wait_for_copy\<close> started in service state \<open>s\<close> returns, emits and leaves as
  the service state; it does not depend on the rest of the world.
\<close>

definition wait_outcome ::
  "'s blob_sdk \<Rightarrow> string \<Rightarrow> string \<Rightarrow> 's \<Rightarrow> (exn + bool) \<times> event list \<times> 's" where
  "wait_outcome sdk c b s =
     (fst (wait_for_copy sdk c b (console [] s)),
      trace (snd (wait_for_copy sdk c b (console [] s))),
      cloud (snd (wait_for_copy sdk c b (console [] s))))"

text \<open>
  The console lines by which the operator enters the key and value pairs \<open>kvs\<close>, and what the
  reading loop makes of a list of console lines: the dictionary, or \<open>EOFError\<close>, and the
  lines left.
\<close>

fun pair_lines :: "(string \<times> string) list \<Rightarrow> string list" where
  "pair_lines [] = []"
| "pair_lines ((k, v) # kvs) = k # v # pair_lines kvs"

fun parse_pairs ::
  "(string \<times> string) list \<Rightarrow> string list \<Rightarrow> (exn + (string \<times> string) list) \<times> string list" where
  "parse_pairs md [] = (Inl EOFError, [])"
| "parse_pairs md (k # ls) =
     (if k = [] then (Inr md, ls)
      else case ls of
             [] \<Rightarrow> (Inl EOFError, [])
           | v # ls' \<Rightarrow> parse_pairs (AList.update k v md) ls')"

definition metadata_calls :: "event list \<Rightarrow> event list" where
  "metadata_calls evs = filter is_set_metadata evs"

text \<open>
  The world in which \<^verbatim>\<open>move_specific_blob\<close> calls \<^verbatim>\<open>wait_for_copy\<close>, counted from the start
  of its \<^verbatim>\<open>try\<close> statement: the source was found and the copy request was accepted.
\<close>

definition at_wait :: "'s world \<Rightarrow> string \<Rightarrow> string \<Rightarrow> string \<Rightarrow> 's \<Rightarrow> 's world" where
  "at_wait w sc bn dc s2 =
     w\<lparr>trace := trace w @ [Exists sc bn, Print (MsgStartingCopy bn sc dc), StartCopy dc bn sc bn],
       cloud := s2\<rparr>"

section \<open>The polling loop, step by step\<close>

text \<open>
  The defining equation of \<open>wait_loop\<close> is split by what the fetch returns, so that a
  concrete run can be unfolded one poll at a time.
\<close>

lemma wait_loop_raise:
  "sdk_get_blob_properties sdk c b (cloud w) = (Inl e, s') \<Longrightarrow>
   wait_loop sdk c b n w = (Inl e, (emit (GetProps c b) w)\<lparr>cloud := s'\<rparr>)"
  by (subst wait_loop.simps) (simp add: call_get_blob_properties_def request_def)

lemma wait_loop_success:
  "sdk_get_blob_properties sdk c b (cloud w) = (Inr p, s') \<Longrightarrow> copy_status p = ''success'' \<Longrightarrow>
   wait_loop sdk c b n w = (Inr True, emit (Print MsgCopyCompleted) (after_poll c b p s' w))"
  by (subst wait_loop.simps) (simp add: call_get_blob_properties_def request_def after_poll_def)

lemma wait_loop_failed:
  "sdk_get_blob_properties sdk c b (cloud w) = (Inr p, s') \<Longrightarrow>
   copy_status p = ''failed'' \<or> copy_status p = ''aborted'' \<Longrightarrow>
   wait_loop sdk c b n w =
     (Inr False, emit (Print (MsgErrorDetails (copy_status_description p)))
        (emit (Print (MsgCopyFailed (copy_status p))) (after_poll c b p s' w)))"
  by (subst wait_loop.simps)
     (auto simp add: call_get_blob_properties_def request_def after_poll_def Let_def)

lemma wait_loop_timeout:
  "sdk_get_blob_properties sdk c b (cloud w) = (Inr p, s') \<Longrightarrow> \<not> terminal (copy_status p) \<Longrightarrow>
   10 < n \<Longrightarrow>
   wait_loop sdk c b n w = (Inr False, emit (Print MsgCopyTimeout) (after_poll c b p s' w))"
  by (subst wait_loop.simps)
     (simp add: call_get_blob_properties_def request_def after_poll_def terminal_def)

lemma wait_loop_again:
  "sdk_get_blob_properties sdk c b (cloud w) = (Inr p, s') \<Longrightarrow> \<not> terminal (copy_status p) \<Longrightarrow>
   \<not> 10 < n \<Longrightarrow>
   wait_loop sdk c b n w = wait_loop sdk c b (n + 1) (emit (Sleep 3) (after_poll c b p s' w))"
  by (subst wait_loop.simps)
     (simp add: call_get_blob_properties_def request_def after_poll_def terminal_def)

lemmas wait_loop_eval =
  wait_loop_raise wait_loop_success wait_loop_failed wait_loop_timeout wait_loop_again

lemma wait_loop_cases [consumes 1, case_names raise success failed timeout again]:
  assumes run: "wait_loop sdk c b n w = (r, w')"
  obtains
    e s' where "sdk_get_blob_properties sdk c b (cloud w) = (Inl e, s')"
      and "r = Inl e" and "w' = (emit (GetProps c b) w)\<lparr>cloud := s'\<rparr>"
  | p s' where "sdk_get_blob_properties sdk c b (cloud w) = (Inr p, s')"
      and "copy_status p = ''success''" and "r = Inr True"
      and "w' = emit (Print MsgCopyCompleted) (after_poll c b p s' w)"
  | p s' where "sdk_get_blob_properties sdk c b (cloud w) = (Inr p, s')"
      and "copy_status p = ''failed'' \<or> copy_status p = ''aborted''" and "r = Inr False"
      and "w' = emit (Print (MsgErrorDetails (copy_status_description p)))
                  (emit (Print (MsgCopyFailed (copy_status p))) (after_poll c b p s' w))"
  | p s' where "sdk_get_blob_properties sdk c b (cloud w) = (Inr p, s')"
      and "\<not> terminal (copy_status p)" and "10 < n" and "r = Inr False"
      and "w' = emit (Print MsgCopyTimeout) (after_poll c b p s' w)"
  | p s' where "sdk_get_blob_properties sdk c b (cloud w) = (Inr p, s')"
      and "\<not> terminal (copy_status p)" and "\<not> 10 < n"
      and "wait_loop sdk c b (n + 1) (emit (Sleep 3) (after_poll c b p s' w)) = (r, w')"
proof -
  obtain x s' where g: "sdk_get_blob_properties sdk c b (cloud w) = (x, s')"
    by (cases "sdk_get_blob_properties sdk c b (cloud w)")
  show thesis
  proof (cases x)
    case (Inl e)
    with g run that(1) show thesis by (simp add: wait_loop_raise)
  next
    case (Inr p)
    note g' = g[unfolded Inr]
    consider "copy_status p = ''success''"
      | "copy_status p = ''failed'' \<or> copy_status p = ''aborted''"
      | "\<not> terminal (copy_status p)" "10 < n"
      | "\<not> terminal (copy_status p)" "\<not> 10 < n"
      by (auto simp: terminal_def)
    then show thesis
    proof cases
      case 1 with g' run that(2) show thesis by (simp add: wait_loop_success)
    next
      case 2 with g' run that(3) show thesis by (simp add: wait_loop_failed)
    next
      case 3 with g' run that(4) show thesis by (simp add: wait_loop_timeout)
    next
      case 4 with g' run that(5) show thesis by (simp add: wait_loop_again)
    qed
  qed
qed

lemma wait_loop_shape:
  "wait_loop sdk c b n w = (r, w') \<Longrightarrow>
   \<exists>sts fin.
     w' = w\<lparr>trace := trace w @ concat (map (poll_round c b) sts) @ fin, cloud := cloud w'\<rparr> \<and>
     (\<forall>st\<in>set sts. \<not> terminal st) \<and>
     (sts \<noteq> [] \<longrightarrow> n + length sts \<le> 11) \<and>
     wait_ending c b (n + length sts) r fin"
proof (induction k \<equiv> "11 - n" arbitrary: n w)
  case 0
  from "0.prems" show ?case
  proof (cases rule: wait_loop_cases)
    case (raise e s')
    then show ?thesis
      by (intro exI[of _ "[]"] exI[of _ "[GetProps c b]"]) (simp add: wait_ending_def emit_def)
  next
    case (success p s')
    then show ?thesis
      by (intro exI[of _ "[]"]
            exI[of _ "[GetProps c b, Print (MsgCopyStatus ''success''), Print MsgCopyCompleted]"])
         (simp add: wait_ending_def emit_def after_poll_def)
  next
    case (failed p s')
    then show ?thesis
      by (intro exI[of _ "[]"]
            exI[of _ "[GetProps c b, Print (MsgCopyStatus (copy_status p)),
                       Print (MsgCopyFailed (copy_status p)),
                       Print (MsgErrorDetails (copy_status_description p))]"])
         (auto simp add: wait_ending_def emit_def after_poll_def)
  next
    case (timeout p s')
    then show ?thesis
      by (intro exI[of _ "[]"]
            exI[of _ "[GetProps c b, Print (MsgCopyStatus (copy_status p)), Print MsgCopyTimeout]"])
         (auto simp add: wait_ending_def emit_def after_poll_def)
  next
    case (again p s')
    with "0.hyps" show ?thesis by simp
  qed
next
  case (Suc k)
  from Suc.prems show ?case
  proof (cases rule: wait_loop_cases)
    case (raise e s')
    then show ?thesis
      by (intro exI[of _ "[]"] exI[of _ "[GetProps c b]"]) (simp add: wait_ending_def emit_def)
  next
    case (success p s')
    then show ?thesis
      by (intro exI[of _ "[]"]
            exI[of _ "[GetProps c b, Print (MsgCopyStatus ''success''), Print MsgCopyCompleted]"])
         (simp add: wait_ending_def emit_def after_poll_def)
  next
    case (failed p s')
    then show ?thesis
      by (intro exI[of _ "[]"]
            exI[of _ "[GetProps c b, Print (MsgCopyStatus (copy_status p)),
                       Print (MsgCopyFailed (copy_status p)),
                       Print (MsgErrorDetails (copy_status_description p))]"])
         (auto simp add: wait_ending_def emit_def after_poll_def)
  next
    case (timeout p s')
    then show ?thesis
      by (intro exI[of _ "[]"]
            exI[of _ "[GetProps c b, Print (MsgCopyStatus (copy_status p)), Print MsgCopyTimeout]"])
         (auto simp add: wait_ending_def emit_def after_poll_def)
  next
    case (again p s')
    let ?v = "emit (Sleep 3) (after_poll c b p s' w)"
    from Suc.hyps(2) again(3) have k: "k = 11 - (n + 1)" by simp
    from Suc.hyps(1)[OF k again(4)] obtain sts fin where
      w': "w' = ?v\<lparr>trace := trace ?v @ concat (map (poll_round c b) sts) @ fin, cloud := cloud w'\<rparr>"
      and nt: "\<forall>st\<in>set sts. \<not> terminal st"
      and len: "sts \<noteq> [] \<longrightarrow> n + 1 + length sts \<le> 11"
      and fin: "wait_ending c b (n + 1 + length sts) r fin"
      by blast
    have "w' = w\<lparr>trace := trace w @ concat (map (poll_round c b) (copy_status p # sts)) @ fin,
                 cloud := cloud w'\<rparr>"
      by (subst w') (simp add: emit_def after_poll_def poll_round_def)
    moreover have "\<forall>st\<in>set (copy_status p # sts). \<not> terminal st"
      using nt again(2) by simp
    moreover have "n + length (copy_status p # sts) \<le> 11"
      using len again(3) by (cases sts) auto
    moreover have "wait_ending c b (n + length (copy_status p # sts)) r fin"
      using fin by simp
    ultimately show ?thesis by blast
  qed
qed

lemma fetch_calls_rounds:
  "fetch_calls (concat (map (poll_round c b) sts) @ evs) =
     replicate (length sts) (GetProps c b) @ fetch_calls evs"
  by (induction sts) (simp_all add: fetch_calls_def poll_round_def)

lemma observed_rounds:
  "observed (concat (map (poll_round c b) sts) @ evs) = sts @ observed evs"
  by (induction sts) (simp_all add: poll_round_def)

lemma new_events_append [simp]:
  "new_events w (w\<lparr>trace := trace w @ evs, cloud := s\<rparr>) = evs"
  by (simp add: new_events_def)

lemma wait_for_copy_shape:
  "\<exists>sts fin.
     snd (wait_for_copy sdk c b w) =
       w\<lparr>trace := trace w @ concat (map (poll_round c b) sts) @ fin,
         cloud := cloud (snd (wait_for_copy sdk c b w))\<rparr> \<and>
     new_events w (snd (wait_for_copy sdk c b w)) = concat (map (poll_round c b) sts) @ fin \<and>
     (\<forall>st\<in>set sts. \<not> terminal st) \<and> length sts \<le> 11 \<and>
     wait_ending c b (length sts) (fst (wait_for_copy sdk c b w)) fin"
proof -
  obtain r w' where run: "wait_loop sdk c b 0 w = (r, w')"
    by (cases "wait_loop sdk c b 0 w")
  from wait_loop_shape[OF run] obtain sts fin where
    w': "w' = w\<lparr>trace := trace w @ concat (map (poll_round c b) sts) @ fin, cloud := cloud w'\<rparr>"
    and nt: "\<forall>st\<in>set sts. \<not> terminal st"
    and len: "sts \<noteq> [] \<longrightarrow> 0 + length sts \<le> 11"
    and fin: "wait_ending c b (0 + length sts) r fin"
    by blast
  have "new_events w w' = concat (map (poll_round c b) sts) @ fin"
    by (subst w') simp
  moreover have "length sts \<le> 11" using len by (cases sts) auto
  ultimately show ?thesis
    using w' nt fin run by (auto simp: wait_for_copy_def)
qed

lemma wait_loop_no_raise:
  assumes ok: "\<forall>s. \<exists>p s'. sdk_get_blob_properties sdk c b s = (Inr p, s')"
  shows "wait_loop sdk c b n w = (r, w') \<Longrightarrow> \<exists>ok. r = Inr ok"
proof (induction k \<equiv> "11 - n" arbitrary: n w)
  case 0
  from "0.prems" show ?case
  proof (cases rule: wait_loop_cases)
    case (raise e s')
    with ok[rule_format, of "cloud w"] show ?thesis by auto
  next
    case (again p s')
    with "0.hyps" show ?thesis by simp
  qed auto
next
  case (Suc k)
  from Suc.prems show ?case
  proof (cases rule: wait_loop_cases)
    case (raise e s')
    with ok[rule_format, of "cloud w"] show ?thesis by auto
  next
    case (again p s')
    from Suc.hyps(2) again(3) have "k = 11 - (n + 1)" by simp
    from Suc.hyps(1)[OF this again(4)] show ?thesis .
  qed auto
qed

lemma wait_loop_pending:
  assumes pend: "\<forall>s. \<exists>p s'. sdk_get_blob_properties sdk c b s = (Inr p, s') \<and>
                    \<not> terminal (copy_status p)"
  shows "wait_loop sdk c b n w = (r, w') \<Longrightarrow>
         r = Inr False \<and>
         (\<exists>evs. trace w' = trace w @ evs \<and> length (fetch_calls evs) = Suc (11 - n) \<and>
                Print MsgCopyTimeout \<in> set evs)"
proof (induction k \<equiv> "11 - n" arbitrary: n w)
  case 0
  from "0.prems" show ?case
  proof (cases rule: wait_loop_cases)
    case (raise e s')
    with pend[rule_format, of "cloud w"] show ?thesis by auto
  next
    case (success p s')
    with pend[rule_format, of "cloud w"] show ?thesis by (auto simp: terminal_def)
  next
    case (failed p s')
    with pend[rule_format, of "cloud w"] show ?thesis by (auto simp: terminal_def)
  next
    case (timeout p s')
    with "0.hyps" show ?thesis
      by (simp add: emit_def after_poll_def fetch_calls_def)
  next
    case (again p s')
    with "0.hyps" show ?thesis by simp
  qed
next
  case (Suc k)
  from Suc.prems show ?case
  proof (cases rule: wait_loop_cases)
    case (raise e s')
    with pend[rule_format, of "cloud w"] show ?thesis by auto
  next
    case (success p s')
    with pend[rule_format, of "cloud w"] show ?thesis by (auto simp: terminal_def)
  next
    case (failed p s')
    with pend[rule_format, of "cloud w"] show ?thesis by (auto simp: terminal_def)
  next
    case (timeout p s')
    with Suc.hyps(2) show ?thesis by simp
  next
    case (again p s')
    let ?v = "emit (Sleep 3) (after_poll c b p s' w)"
    from Suc.hyps(2) again(3) have k: "k = 11 - (n + 1)" by simp
    from Suc.hyps(1)[OF k again(4)] obtain evs where
      r: "r = Inr False" and t: "trace w' = trace ?v @ evs"
      and l: "length (fetch_calls evs) = Suc (11 - (n + 1))"
      and m: "Print MsgCopyTimeout \<in> set evs"
      by blast
    have "trace w' = trace w @ poll_round c b (copy_status p) @ evs"
      using t by (simp add: emit_def after_poll_def poll_round_def)
    moreover have "length (fetch_calls (poll_round c b (copy_status p) @ evs)) = Suc (11 - n)"
      using l again(3) by (simp add: fetch_calls_def poll_round_def)
    moreover have "Print MsgCopyTimeout \<in> set (poll_round c b (copy_status p) @ evs)"
      using m by simp
    ultimately show ?thesis using r by blast
  qed
qed

lemmas demo_eval =
  wait_for_copy_def demo_sdk_def stuck_sdk_def console_def wait_loop_eval terminal_def
  after_poll_def emit_def new_events_def fetch_calls_def

section \<open>Claims about \<^verbatim>\<open>wait_for_copy\<close>\<close>

text \<open>
  C1 (as amended). Every call of \<^verbatim>\<open>wait_for_copy\<close> returns, after at most 12 fetches of the
  destination blob's properties: the test \<^verbatim>\<open>count > 10\<close> first holds in the twelfth round.
  It returns a boolean whenever no fetch raises; a fetch that raises ends the call with that
  exception. If the status stays non-terminal for good, the call fetches exactly 12 times,
  prints the timeout line and returns \<^verbatim>\<open>False\<close>.
\<close>

theorem wait_for_copy_bounded:
  "length (fetch_calls (new_events w (snd (wait_for_copy sdk c b w)))) \<le> 12 \<and>
   ((\<forall>s. \<exists>p s'. sdk_get_blob_properties sdk c b s = (Inr p, s')) \<longrightarrow>
      (\<exists>ok. fst (wait_for_copy sdk c b w) = Inr ok)) \<and>
   ((\<forall>s. \<exists>p s'. sdk_get_blob_properties sdk c b s = (Inr p, s') \<and> \<not> terminal (copy_status p)) \<longrightarrow>
      fst (wait_for_copy sdk c b w) = Inr False \<and>
      length (fetch_calls (new_events w (snd (wait_for_copy sdk c b w)))) = 12 \<and>
      Print MsgCopyTimeout \<in> set (new_events w (snd (wait_for_copy sdk c b w))))"
proof (intro conjI impI)
  obtain sts fin where
    ne: "new_events w (snd (wait_for_copy sdk c b w)) = concat (map (poll_round c b) sts) @ fin"
    and len: "length sts \<le> 11"
    and fin: "wait_ending c b (length sts) (fst (wait_for_copy sdk c b w)) fin"
    using wait_for_copy_shape[of sdk c b w] by blast
  from fin have "length (fetch_calls fin) = 1"
    by (auto simp: wait_ending_def fetch_calls_def)
  with len show "length (fetch_calls (new_events w (snd (wait_for_copy sdk c b w)))) \<le> 12"
    by (simp add: ne fetch_calls_rounds)
next
  assume ok: "\<forall>s. \<exists>p s'. sdk_get_blob_properties sdk c b s = (Inr p, s')"
  obtain r w' where run: "wait_loop sdk c b 0 w = (r, w')"
    by (cases "wait_loop sdk c b 0 w")
  from wait_loop_no_raise[OF ok run] run
  show "\<exists>ok. fst (wait_for_copy sdk c b w) = Inr ok"
    by (simp add: wait_for_copy_def)
next
  assume pend: "\<forall>s. \<exists>p s'. sdk_get_blob_properties sdk c b s = (Inr p, s') \<and>
                    \<not> terminal (copy_status p)"
  obtain r w' where run: "wait_loop sdk c b 0 w = (r, w')"
    by (cases "wait_loop sdk c b 0 w")
  from wait_loop_pending[OF pend run] obtain evs where
    r: "r = Inr False" and t: "trace w' = trace w @ evs"
    and l: "length (fetch_calls evs) = 12" and m: "Print MsgCopyTimeout \<in> set evs"
    by auto
  from t have ne: "new_events w w' = evs" by (simp add: new_events_def)
  from r run show "fst (wait_for_copy sdk c b w) = Inr False"
    by (simp add: wait_for_copy_def)
  from l ne run show "length (fetch_calls (new_events w (snd (wait_for_copy sdk c b w)))) = 12"
    by (simp add: wait_for_copy_def)
  from m ne run show "Print MsgCopyTimeout \<in> set (new_events w (snd (wait_for_copy sdk c b w)))"
    by (simp add: wait_for_copy_def)
qed

text \<open>
  C1 as stated (at most 10 fetches) fails on a copy that stays \<^verbatim>\<open>pending\<close>: the call fetches
  12 times before it gives up.
\<close>

theorem wait_for_copy_ten_polls_counterexample:
  "fst (wait_for_copy stuck_sdk ''dst'' ''x.txt'' (console [] 0)) = Inr False \<and>
   length (fetch_calls (new_events (console [] 0)
     (snd (wait_for_copy stuck_sdk ''dst'' ''x.txt'' (console [] 0))))) = 12 \<and>
   \<not> length (fetch_calls (new_events (console [] 0)
     (snd (wait_for_copy stuck_sdk ''dst'' ''x.txt'' (console [] 0))))) \<le> 10"
  by (simp add: demo_eval)

theorem wait_for_copy_bounded_witness:
  "(\<forall>s. \<exists>p s'. sdk_get_blob_properties stuck_sdk ''dst'' ''x.txt'' s = (Inr p, s')) \<and>
   (\<forall>s. \<exists>p s'. sdk_get_blob_properties stuck_sdk ''dst'' ''x.txt'' s = (Inr p, s') \<and>
      \<not> terminal (copy_status p)) \<and>
   (\<exists>ok. fst (wait_for_copy stuck_sdk ''dst'' ''x.txt'' (console [] 0)) = Inr ok) \<and>
   fst (wait_for_copy stuck_sdk ''dst'' ''x.txt'' (console [] 0)) = Inr False \<and>
   length (fetch_calls (new_events (console [] 0)
     (snd (wait_for_copy stuck_sdk ''dst'' ''x.txt'' (console [] 0))))) = 12"
proof -
  have h: "\<forall>s. \<exists>p s'. sdk_get_blob_properties stuck_sdk ''dst'' ''x.txt'' s = (Inr p, s') \<and>
      \<not> terminal (copy_status p)"
    by (simp add: stuck_sdk_def terminal_def)
  then have h': "\<forall>s. \<exists>p s'. sdk_get_blob_properties stuck_sdk ''dst'' ''x.txt'' s = (Inr p, s')"
    by blast
  from h h' wait_for_copy_bounded[of "console [] 0" stuck_sdk "''dst''" "''x.txt''"]
  show ?thesis by blast
qed

text \<open>
  The statuses that \<^verbatim>\<open>wait_for_copy\<close> prints: \<^verbatim>\<open>True\<close> is returned exactly when one of them
  is \<^verbatim>\<open>success\<close>, at most 12 are printed, and every one before the last is none of the
  three terminal strings.
\<close>

lemma wait_for_copy_printed_statuses:
  "(fst (wait_for_copy sdk c b w) = Inr True \<longleftrightarrow>
      ''success'' \<in> set (observed (new_events w (snd (wait_for_copy sdk c b w))))) \<and>
   (''failed'' \<in> set (observed (new_events w (snd (wait_for_copy sdk c b w)))) \<or>
    ''aborted'' \<in> set (observed (new_events w (snd (wait_for_copy sdk c b w)))) \<longrightarrow>
      fst (wait_for_copy sdk c b w) = Inr False) \<and>
   length (observed (new_events w (snd (wait_for_copy sdk c b w)))) \<le> 12 \<and>
   (\<forall>st\<in>set (butlast (observed (new_events w (snd (wait_for_copy sdk c b w))))).
      \<not> terminal st) \<and>
   ((\<forall>st\<in>set (observed (new_events w (snd (wait_for_copy sdk c b w)))). \<not> terminal st) \<longrightarrow>
      (\<exists>e. fst (wait_for_copy sdk c b w) = Inl e) \<or>
      fst (wait_for_copy sdk c b w) = Inr False \<and>
      length (observed (new_events w (snd (wait_for_copy sdk c b w)))) = 12)"
proof -
  obtain sts fin where
    ne: "new_events w (snd (wait_for_copy sdk c b w)) = concat (map (poll_round c b) sts) @ fin"
    and nt: "\<forall>st\<in>set sts. \<not> terminal st"
    and len: "length sts \<le> 11"
    and fin: "wait_ending c b (length sts) (fst (wait_for_copy sdk c b w)) fin"
    using wait_for_copy_shape[of sdk c b w] by blast
  have obs: "observed (new_events w (snd (wait_for_copy sdk c b w))) = sts @ observed fin"
    by (simp add: ne observed_rounds)
  from fin consider
      (raise) e where "fst (wait_for_copy sdk c b w) = Inl e" "observed fin = []"
    | (success) "fst (wait_for_copy sdk c b w) = Inr True" "observed fin = [''success'']"
    | (failed) st where "st = ''failed'' \<or> st = ''aborted''"
        "fst (wait_for_copy sdk c b w) = Inr False" "observed fin = [st]"
    | (timeout) st where "\<not> terminal st" "10 < length sts"
        "fst (wait_for_copy sdk c b w) = Inr False" "observed fin = [st]"
    by (auto simp: wait_ending_def)
  then show ?thesis
  proof cases
    case raise
    with nt len show ?thesis
      by (auto simp: obs terminal_def dest: in_set_butlastD)
  next
    case success
    with nt len show ?thesis
      by (auto simp: obs terminal_def butlast_append)
  next
    case failed
    with nt len show ?thesis
      by (auto simp: obs terminal_def butlast_append)
  next
    case timeout
    with nt len show ?thesis
      by (auto simp: obs terminal_def butlast_append)
  qed
qed

section \<open>The result of \<^verbatim>\<open>wait_for_copy\<close> from the fetched statuses\<close>

lemma wait_loop_verdict:
  "n \<le> 11 \<Longrightarrow> wait_loop sdk c b n w = (r, w') \<Longrightarrow>
   r = verdict (polled sdk c b (12 - n) (cloud w))"
proof (induction k \<equiv> "11 - n" arbitrary: n w)
  case 0
  then have n: "12 - n = Suc 0" by simp
  from "0.prems"(2) show ?case
  proof (cases rule: wait_loop_cases)
    case (again p s')
    with "0.hyps" "0.prems"(1) show ?thesis by simp
  qed (auto simp: n terminal_def)
next
  case (Suc k)
  then have n: "12 - n = Suc (12 - (n + 1))" by simp
  from Suc.prems(2) show ?case
  proof (cases rule: wait_loop_cases)
    case (again p s')
    let ?v = "emit (Sleep 3) (after_poll c b p s' w)"
    from Suc.hyps(2) again(3) have k: "k = 11 - (n + 1)" and le: "n + 1 \<le> 11" by simp_all
    have c: "cloud ?v = s'" by (simp add: emit_def after_poll_def)
    from Suc.hyps(1)[OF k le again(4)] c
    have "r = verdict (polled sdk c b (12 - (n + 1)) s')" by simp
    with again(1,2) show ?thesis
      by (simp only: n) (simp add: terminal_def)
  next
    case (timeout p s')
    with Suc.hyps(2) show ?thesis by simp
  qed (auto simp: n terminal_def)
qed

lemma verdict_true_iff:
  "verdict P = Inr True \<longleftrightarrow>
     (\<exists>i<length P. P ! i = Inr ''success'' \<and> (\<forall>j<i. pending (P ! j)))"
proof (induction P rule: verdict.induct)
  case 1
  show ?case by simp
next
  case (2 e answers)
  have "\<And>i. i < Suc (length answers) \<Longrightarrow> (Inl e # answers) ! i = Inr ''success'' \<Longrightarrow>
      \<not> (\<forall>j<i. pending ((Inl e # answers) ! j))"
  proof -
    fix i assume "i < Suc (length answers)" and s: "(Inl e # answers) ! i = Inr ''success''"
    then have "0 < i" by (cases i) auto
    then show "\<not> (\<forall>j<i. pending ((Inl e # answers) ! j))"
      by (auto intro: exI[of _ 0])
  qed
  then show ?case by auto
next
  case (3 st answers)
  show ?case
  proof (cases "terminal st")
    case True
    then have nt: "\<not> pending (Inr st)" by simp
    have "(\<exists>i<length (Inr st # answers). (Inr st # answers) ! i = Inr ''success'' \<and>
             (\<forall>j<i. pending ((Inr st # answers) ! j))) \<longleftrightarrow> st = ''success''"
    proof
      assume "\<exists>i<length (Inr st # answers). (Inr st # answers) ! i = Inr ''success'' \<and>
             (\<forall>j<i. pending ((Inr st # answers) ! j))"
      then obtain i where i: "(Inr st # answers) ! i = Inr ''success''"
        and p: "\<forall>j<i. pending ((Inr st # answers) ! j)" by blast
      have "i = 0"
      proof (rule ccontr)
        assume "i \<noteq> 0"
        then have "0 < i" by simp
        with p have "pending ((Inr st # answers) ! 0)" by blast
        with nt show False by simp
      qed
      with i show "st = ''success''" by simp
    next
      assume "st = ''success''"
      then show "\<exists>i<length (Inr st # answers). (Inr st # answers) ! i = Inr ''success'' \<and>
             (\<forall>j<i. pending ((Inr st # answers) ! j))"
        by (intro exI[of _ 0]) simp
    qed
    with True show ?thesis by (auto simp: terminal_def)
  next
    case False
    then have st: "st \<noteq> ''success''" "\<not> (st = ''failed'' \<or> st = ''aborted'')"
      by (auto simp: terminal_def)
    from False have pe: "pending (Inr st)" by simp
    have "(\<exists>i<length (Inr st # answers). (Inr st # answers) ! i = Inr ''success'' \<and>
             (\<forall>j<i. pending ((Inr st # answers) ! j))) \<longleftrightarrow>
          (\<exists>i<length answers. answers ! i = Inr ''success'' \<and> (\<forall>j<i. pending (answers ! j)))"
    proof
      assume "\<exists>i<length (Inr st # answers). (Inr st # answers) ! i = Inr ''success'' \<and>
             (\<forall>j<i. pending ((Inr st # answers) ! j))"
      then obtain i where l: "i < length (Inr st # answers)"
        and i: "(Inr st # answers) ! i = Inr ''success''"
        and p: "\<forall>j<i. pending ((Inr st # answers) ! j)" by blast
      from i st obtain i' where i': "i = Suc i'" by (cases i) auto
      have "\<forall>j<i'. pending (answers ! j)"
      proof (intro allI impI)
        fix j assume "j < i'"
        then have "Suc j < i" using i' by simp
        with p have "pending ((Inr st # answers) ! Suc j)" by blast
        then show "pending (answers ! j)" by simp
      qed
      with l i i' show "\<exists>i<length answers. answers ! i = Inr ''success'' \<and>
          (\<forall>j<i. pending (answers ! j))"
        by (intro exI[of _ i']) simp
    next
      assume "\<exists>i<length answers. answers ! i = Inr ''success'' \<and> (\<forall>j<i. pending (answers ! j))"
      then obtain i where l: "i < length answers" and i: "answers ! i = Inr ''success''"
        and p: "\<forall>j<i. pending (answers ! j)" by blast
      have "\<forall>j<Suc i. pending ((Inr st # answers) ! j)"
      proof (intro allI impI)
        fix j assume "j < Suc i"
        then show "pending ((Inr st # answers) ! j)"
          using p pe by (cases j) auto
      qed
      with l i show "\<exists>i<length (Inr st # answers). (Inr st # answers) ! i = Inr ''success'' \<and>
             (\<forall>j<i. pending ((Inr st # answers) ! j))"
        by (intro exI[of _ "Suc i"]) simp
    qed
    with st "3.IH"[OF st] show ?thesis by simp
  qed
qed

lemma verdict_first_decisive:
  "i < length P \<Longrightarrow> \<forall>j<i. pending (P ! j) \<Longrightarrow> verdict P = verdict (drop i P)"
proof (induction i arbitrary: P)
  case 0
  show ?case by simp
next
  case (Suc i)
  then obtain x rest where P: "P = x # rest" by (cases P) auto
  from Suc.prems(2) have "pending (P ! 0)" by blast
  with P obtain st where x: "x = Inr st" and nt: "\<not> terminal st" by (cases x) auto
  from Suc.prems(1) P have l: "i < length rest" by simp
  have p: "\<forall>j<i. pending (rest ! j)"
  proof (intro allI impI)
    fix j assume "j < i"
    then have "Suc j < Suc i" by simp
    with Suc.prems(2) have "pending (P ! Suc j)" by blast
    with P show "pending (rest ! j)" by simp
  qed
  from Suc.IH[OF l p] nt show ?case by (simp add: P x terminal_def)
qed

lemma verdict_failed:
  assumes "i < length P" and "P ! i = Inr ''failed'' \<or> P ! i = Inr ''aborted''"
    and "\<forall>j<i. pending (P ! j)"
  shows "verdict P = Inr False"
proof -
  from assms(1) have d: "drop i P = P ! i # drop (Suc i) P" by (simp add: Cons_nth_drop_Suc)
  from verdict_first_decisive[OF assms(1,3)] assms(2) show ?thesis by (auto simp: d)
qed

lemma verdict_raised:
  assumes "i < length P" and "P ! i = Inl e" and "\<forall>j<i. pending (P ! j)"
  shows "verdict P = Inl e"
proof -
  from assms(1) have d: "drop i P = P ! i # drop (Suc i) P" by (simp add: Cons_nth_drop_Suc)
  from verdict_first_decisive[OF assms(1,3)] assms(2) show ?thesis by (simp add: d)
qed

lemma verdict_all_pending: "\<forall>x\<in>set P. pending x \<Longrightarrow> verdict P = Inr False"
  by (induction P rule: verdict.induct) (auto simp: terminal_def)

lemma length_polled: "length (polled sdk c b n s) \<le> n"
  by (induction n arbitrary: s) (auto split: prod.splits sum.splits)

lemma wait_for_copy_verdict:
  "fst (wait_for_copy sdk c b w) = verdict (polled sdk c b 12 (cloud w))"
proof -
  obtain r w' where run: "wait_loop sdk c b 0 w = (r, w')"
    by (cases "wait_loop sdk c b 0 w")
  from wait_loop_verdict[OF _ run] run show ?thesis
    by (simp add: wait_for_copy_def)
qed

text \<open>
  C2. Let \<open>P\<close> be the answers of the service to up to 12 successive fetches from the state
  in which \<^verbatim>\<open>wait_for_copy\<close> is called. The call returns \<^verbatim>\<open>True\<close> exactly when some fetched
  status is the string \<^verbatim>\<open>success\<close> and every answer before it is pending. When the first
  answer that is not pending is \<^verbatim>\<open>failed\<close> or \<^verbatim>\<open>aborted\<close> it returns \<^verbatim>\<open>False\<close>, and when all
  answers are pending (any other strings) it polls to the bound and returns \<^verbatim>\<open>False\<close>.
\<close>

theorem wait_for_copy_success_iff:
  "(fst (wait_for_copy sdk c b w) = Inr True \<longleftrightarrow>
      (\<exists>i<length (polled sdk c b 12 (cloud w)).
         polled sdk c b 12 (cloud w) ! i = Inr ''success'' \<and>
         (\<forall>j<i. pending (polled sdk c b 12 (cloud w) ! j)))) \<and>
   ((\<exists>i<length (polled sdk c b 12 (cloud w)).
       (polled sdk c b 12 (cloud w) ! i = Inr ''failed'' \<or>
        polled sdk c b 12 (cloud w) ! i = Inr ''aborted'') \<and>
       (\<forall>j<i. pending (polled sdk c b 12 (cloud w) ! j))) \<longrightarrow>
      fst (wait_for_copy sdk c b w) = Inr False) \<and>
   ((\<forall>x\<in>set (polled sdk c b 12 (cloud w)). pending x) \<longrightarrow>
      fst (wait_for_copy sdk c b w) = Inr False) \<and>
   length (polled sdk c b 12 (cloud w)) \<le> 12"
  using verdict_true_iff[of "polled sdk c b 12 (cloud w)"]
    verdict_failed[of _ "polled sdk c b 12 (cloud w)"]
    verdict_all_pending[of "polled sdk c b 12 (cloud w)"]
    length_polled[of sdk c b 12 "cloud w"]
  by (simp only: wait_for_copy_verdict) blast

lemma polled_demo_success:
  "polled (demo_sdk True [] (Inr ())) ''dst'' ''x.txt'' 12 [''pending'', ''copying'', ''success''] =
     [Inr ''pending'', Inr ''copying'', Inr ''success'', Inr ''pending'', Inr ''pending'',
      Inr ''pending'', Inr ''pending'', Inr ''pending'', Inr ''pending'', Inr ''pending'',
      Inr ''pending'', Inr ''pending'']"
  by (simp add: eval_nat_numeral demo_sdk_def)

lemma polled_demo_upper_case:
  "polled (demo_sdk True [] (Inr ())) ''dst'' ''x.txt'' 12 [''SUCCESS''] =
     [Inr ''SUCCESS'', Inr ''pending'', Inr ''pending'', Inr ''pending'', Inr ''pending'',
      Inr ''pending'', Inr ''pending'', Inr ''pending'', Inr ''pending'', Inr ''pending'',
      Inr ''pending'', Inr ''pending'']"
  by (simp add: eval_nat_numeral demo_sdk_def)

theorem wait_for_copy_success_iff_witness:
  "polled (demo_sdk True [] (Inr ())) ''dst'' ''x.txt'' 12
       (cloud (console [] [''pending'', ''copying'', ''success''])) ! 2 = Inr ''success'' \<and>
   pending (polled (demo_sdk True [] (Inr ())) ''dst'' ''x.txt'' 12
       (cloud (console [] [''pending'', ''copying'', ''success''])) ! 0) \<and>
   pending (polled (demo_sdk True [] (Inr ())) ''dst'' ''x.txt'' 12
       (cloud (console [] [''pending'', ''copying'', ''success''])) ! 1) \<and>
   fst (wait_for_copy (demo_sdk True [] (Inr ())) ''dst'' ''x.txt''
        (console [] [''pending'', ''copying'', ''success''])) = Inr True \<and>
   polled (demo_sdk True [] (Inr ())) ''dst'' ''x.txt'' 12
       (cloud (console [] [''SUCCESS''])) ! 0 = Inr ''SUCCESS'' \<and>
   fst (wait_for_copy (demo_sdk True [] (Inr ())) ''dst'' ''x.txt''
        (console [] [''SUCCESS''])) = Inr False"
proof -
  let ?P = "polled (demo_sdk True [] (Inr ())) ''dst'' ''x.txt'' 12
       (cloud (console [] [''pending'', ''copying'', ''success'']))"
  let ?Q = "polled (demo_sdk True [] (Inr ())) ''dst'' ''x.txt'' 12
       (cloud (console [] [''SUCCESS'']))"
  have P: "?P = [Inr ''pending'', Inr ''copying'', Inr ''success'', Inr ''pending'',
      Inr ''pending'', Inr ''pending'', Inr ''pending'', Inr ''pending'', Inr ''pending'',
      Inr ''pending'', Inr ''pending'', Inr ''pending'']"
    by (simp add: console_def polled_demo_success)
  have Q: "?Q = [Inr ''SUCCESS'', Inr ''pending'', Inr ''pending'', Inr ''pending'',
      Inr ''pending'', Inr ''pending'', Inr ''pending'', Inr ''pending'', Inr ''pending'',
      Inr ''pending'', Inr ''pending'', Inr ''pending'']"
    by (simp add: console_def polled_demo_upper_case)
  have p2: "?P ! 2 = Inr ''success''" and p0: "pending (?P ! 0)" and p1: "pending (?P ! 1)"
    by (simp_all add: P terminal_def)
  have ex: "\<exists>i<length ?P. ?P ! i = Inr ''success'' \<and> (\<forall>j<i. pending (?P ! j))"
  proof (intro exI[of _ 2] conjI allI impI)
    show "2 < length ?P" by (simp add: P)
    show "?P ! 2 = Inr ''success''" by (rule p2)
    fix j :: nat assume "j < 2"
    then have "j = 0 \<or> j = 1" by auto
    with p0 p1 show "pending (?P ! j)" by auto
  qed
  have q0: "?Q ! 0 = Inr ''SUCCESS''" by (simp add: Q)
  have all: "\<forall>x\<in>set ?Q. pending x" by (simp add: Q terminal_def)
  from ex
    wait_for_copy_success_iff[of "demo_sdk True [] (Inr ())" "''dst''" "''x.txt''"
      "console [] [''pending'', ''copying'', ''success'']"]
  have t: "fst (wait_for_copy (demo_sdk True [] (Inr ())) ''dst'' ''x.txt''
        (console [] [''pending'', ''copying'', ''success''])) = Inr True"
    by blast
  from all
    wait_for_copy_success_iff[of "demo_sdk True [] (Inr ())" "''dst''" "''x.txt''"
      "console [] [''SUCCESS'']"]
  have f: "fst (wait_for_copy (demo_sdk True [] (Inr ())) ''dst'' ''x.txt''
        (console [] [''SUCCESS''])) = Inr False"
    by blast
  from p2 p0 p1 t q0 f show ?thesis by blast
qed

section \<open>Runs of \<^verbatim>\<open>wait_for_copy\<close> from different worlds\<close>

lemma new_events_eq: "trace w' = trace w @ evs \<Longrightarrow> new_events w w' = evs"
  by (simp add: new_events_def)

lemma wait_loop_trace:
  assumes "wait_loop sdk c b n w = (r, w')"
  shows "trace w' = trace w @ new_events w w'" and "inputs w' = inputs w"
proof -
  from wait_loop_shape[OF assms] obtain sts fin where
    w': "w' = w\<lparr>trace := trace w @ concat (map (poll_round c b) sts) @ fin, cloud := cloud w'\<rparr>"
    by blast
  show "trace w' = trace w @ new_events w w'"
    by (subst (1 2) w') (simp add: new_events_def)
  show "inputs w' = inputs w"
    by (subst w') simp
qed

lemma wait_loop_frame:
  "cloud v = cloud w \<Longrightarrow> wait_loop sdk c b n w = (r, w') \<Longrightarrow>
   wait_loop sdk c b n v = (r, v\<lparr>trace := trace v @ new_events w w', cloud := cloud w'\<rparr>)"
proof (induction k \<equiv> "11 - n" arbitrary: n w v)
  case 0
  from "0.prems"(2) show ?case
  proof (cases rule: wait_loop_cases)
    case (again p s')
    with "0.hyps" show ?thesis by simp
  qed (use "0.prems"(1) in \<open>simp_all add: wait_loop_eval new_events_def emit_def after_poll_def\<close>)
next
  case (Suc k)
  from Suc.prems(2) show ?case
  proof (cases rule: wait_loop_cases)
    case (again p s')
    let ?w = "emit (Sleep 3) (after_poll c b p s' w)"
    let ?v = "emit (Sleep 3) (after_poll c b p s' v)"
    from Suc.hyps(2) again(3) have k: "k = 11 - (n + 1)" by simp
    have c: "cloud ?v = cloud ?w" by (simp add: emit_def after_poll_def)
    from Suc.hyps(1)[OF k c again(4)]
    have v: "wait_loop sdk c b (n + 1) ?v =
             (r, ?v\<lparr>trace := trace ?v @ new_events ?w w', cloud := cloud w'\<rparr>)" .
    from wait_loop_trace(1)[OF again(4)] obtain evs where t: "trace w' = trace ?w @ evs"
      by blast
    then have e1: "new_events ?w w' = evs" by (rule new_events_eq)
    from t have "trace w' = trace w @ poll_round c b (copy_status p) @ evs"
      by (simp add: emit_def after_poll_def poll_round_def)
    then have "new_events w w' = poll_round c b (copy_status p) @ evs" by (rule new_events_eq)
    with e1 have "new_events w w' = poll_round c b (copy_status p) @ new_events ?w w'" by simp
    moreover have "wait_loop sdk c b n v = wait_loop sdk c b (n + 1) ?v"
      using again(1,2,3) Suc.prems(1) by (simp add: wait_loop_again)
    ultimately show ?thesis
      using v by (simp add: emit_def after_poll_def poll_round_def)
  qed (use Suc.prems(1) in \<open>simp_all add: wait_loop_eval new_events_def emit_def after_poll_def\<close>)
qed

lemma wait_for_copy_frame:
  assumes "cloud v = cloud w"
  shows "fst (wait_for_copy sdk c b v) = fst (wait_for_copy sdk c b w)"
    and "snd (wait_for_copy sdk c b v) =
           v\<lparr>trace := trace v @ new_events w (snd (wait_for_copy sdk c b w)),
             cloud := cloud (snd (wait_for_copy sdk c b w))\<rparr>"
proof -
  obtain r w' where run: "wait_loop sdk c b 0 w = (r, w')"
    by (cases "wait_loop sdk c b 0 w")
  from wait_loop_frame[OF assms run] run
  show "fst (wait_for_copy sdk c b v) = fst (wait_for_copy sdk c b w)"
    and "snd (wait_for_copy sdk c b v) =
           v\<lparr>trace := trace v @ new_events w (snd (wait_for_copy sdk c b w)),
             cloud := cloud (snd (wait_for_copy sdk c b w))\<rparr>"
    by (simp_all add: wait_for_copy_def)
qed

text \<open>A call of \<^verbatim>\<open>wait_for_copy\<close> sends neither a copy request nor a delete.\<close>

lemma wait_for_copy_events:
  "copy_calls (new_events w (snd (wait_for_copy sdk c b w))) = []"
  "delete_calls (new_events w (snd (wait_for_copy sdk c b w))) = []"
  "DeleteBlob c' b' \<notin> set (new_events w (snd (wait_for_copy sdk c b w)))"
proof -
  obtain sts fin where
    ne: "new_events w (snd (wait_for_copy sdk c b w)) = concat (map (poll_round c b) sts) @ fin"
    and fin: "wait_ending c b (length sts) (fst (wait_for_copy sdk c b w)) fin"
    using wait_for_copy_shape[of sdk c b w] by blast
  have r: "\<And>P. \<not> P (GetProps c b) \<Longrightarrow> \<not> P (Sleep 3) \<Longrightarrow> (\<And>m. \<not> P (Print m)) \<Longrightarrow>
      filter P (concat (map (poll_round c b) sts)) = []"
    by (induction sts) (simp_all add: poll_round_def)
  from fin show "copy_calls (new_events w (snd (wait_for_copy sdk c b w))) = []"
    by (auto simp: ne copy_calls_def r wait_ending_def)
  from fin show "delete_calls (new_events w (snd (wait_for_copy sdk c b w))) = []"
    by (auto simp: ne delete_calls_def r wait_ending_def)
  from fin show "DeleteBlob c' b' \<notin> set (new_events w (snd (wait_for_copy sdk c b w)))"
    by (auto simp: ne wait_ending_def poll_round_def)
qed

section \<open>Claims about \<^verbatim>\<open>move_specific_blob\<close>\<close>

lemma bind_io_alt:
  "bind_io m f w = (case fst (m w) of Inl e \<Rightarrow> (Inl e, snd (m w)) | Inr a \<Rightarrow> f a (snd (m w)))"
  by (cases "m w") (simp add: bind_io_def split: sum.splits)

lemma try_except_alt:
  "try_except m h w =
     (case fst (m w) of Inl e \<Rightarrow> h e (snd (m w)) | Inr a \<Rightarrow> (Inr a, snd (m w)))"
  by (cases "m w") (simp add: try_except_def split: sum.splits)

lemma request_alt:
  "request ev f w = (fst (f (cloud w)), (emit ev w)\<lparr>cloud := snd (f (cloud w))\<rparr>)"
  by (simp add: request_def split_beta)

lemmas io_defs =
  bind_io_alt then_io_def try_except_alt return_io_def print_msg_def sleep_def input_line_def
  request_alt call_exists_def call_start_copy_from_url_def call_get_blob_properties_def
  call_delete_blob_def call_list_blobs_def call_set_blob_metadata_def call_delete_item_def
  get_blob_client_def get_container_client_def

lemma move_specific_blob_inputs:
  "inputs w = sc # bn # dc # rest \<Longrightarrow>
   move_specific_blob sdk w =
     move_specific_try sdk sc bn dc
       (w\<lparr>trace := trace w @ [Print MsgMoveSpecificTitle], inputs := rest\<rparr>)"
  by (simp add: move_specific_blob_def io_defs emit_def)


lemma move_specific_try_failure:
  assumes "sdk_get_blob_client sdk sc bn = Inr ()"
    and "sdk_exists sdk sc bn (cloud w) = (Inr True, s1)"
    and "sdk_get_blob_client sdk dc bn = Inr ()"
    and "sdk_start_copy_from_url sdk dc bn sc bn s1 = (Inr (), s2)"
    and "fst (wait_for_copy sdk dc bn (at_wait w sc bn dc s2)) = Inr False"
  shows "move_specific_try sdk sc bn dc w =
     (Inr (), emit (Print MsgMoveFailed) (snd (wait_for_copy sdk dc bn (at_wait w sc bn dc s2))))"
  using assms
  by (simp add: move_specific_try_def io_defs emit_def at_wait_def)

lemma move_specific_try_success:
  assumes "sdk_get_blob_client sdk sc bn = Inr ()"
    and "sdk_exists sdk sc bn (cloud w) = (Inr True, s1)"
    and "sdk_get_blob_client sdk dc bn = Inr ()"
    and "sdk_start_copy_from_url sdk dc bn sc bn s1 = (Inr (), s2)"
    and "fst (wait_for_copy sdk dc bn (at_wait w sc bn dc s2)) = Inr True"
  shows "\<exists>m. trace (snd (move_specific_try sdk sc bn dc w)) =
           trace (snd (wait_for_copy sdk dc bn (at_wait w sc bn dc s2))) @
             [Print (MsgDeletingOriginalFrom bn sc), DeleteBlob sc bn, Print m]"
    and "fst (move_specific_try sdk sc bn dc w) = Inr ()"
  using assms
  by (auto simp add: move_specific_try_def io_defs emit_def at_wait_def split: sum.splits)

lemma wait_for_copy_trace:
  "trace (snd (wait_for_copy sdk c b w)) = trace w @ new_events w (snd (wait_for_copy sdk c b w))"
  "inputs (snd (wait_for_copy sdk c b w)) = inputs w"
proof -
  obtain r w' where run: "wait_loop sdk c b 0 w = (r, w')"
    by (cases "wait_loop sdk c b 0 w")
  from wait_loop_trace[OF run] run
  show "trace (snd (wait_for_copy sdk c b w)) =
          trace w @ new_events w (snd (wait_for_copy sdk c b w))"
    and "inputs (snd (wait_for_copy sdk c b w)) = inputs w"
    by (simp_all add: wait_for_copy_def)
qed

lemmas run_eval =
  move_specific_blob_def move_specific_try_def io_defs demo_eval copy_calls_def delete_calls_def

text \<open>
  Names that the SDK refuses: with an empty blob name the source client is not built, and
  with an empty destination container the destination client is not built. Either way the
  generic error line is printed and neither a copy nor a delete is sent.
\<close>

lemma move_specific_blob_empty_blob_name_run:
  "new_events (console [''src'', [], ''dst''] [''success''])
     (snd (move_specific_blob (demo_sdk True [] (Inr ()))
        (console [''src'', [], ''dst''] [''success'']))) =
     [Print MsgMoveSpecificTitle, Print (MsgUnexpected ValueError)]"
  by (simp add: run_eval)

lemma move_specific_blob_empty_destination_run:
  "new_events (console [''src'', ''x.txt'', []] [''success''])
     (snd (move_specific_blob (demo_sdk True [] (Inr ()))
        (console [''src'', ''x.txt'', []] [''success'']))) =
     [Print MsgMoveSpecificTitle, Exists ''src'' ''x.txt'', Print (MsgUnexpected ValueError)]"
  by (simp add: run_eval)



lemma move_specific_blob_at_wait:
  assumes i: "inputs w = sc # bn # dc # rest"
    and v: "cloud v = s2"
  shows "fst (wait_for_copy sdk dc bn
           (at_wait (w\<lparr>trace := trace w @ [Print MsgMoveSpecificTitle], inputs := rest\<rparr>)
              sc bn dc s2)) = fst (wait_for_copy sdk dc bn v)"
  by (rule wait_for_copy_frame(1)) (simp add: at_wait_def v)

text \<open>
  C3. The copy-and-wait step of \<^verbatim>\<open>move_specific_blob\<close> is reached when both clients were
  built, the source was found and the copy request was accepted. When \<^verbatim>\<open>wait_for_copy\<close>,
  started in the service state \<open>s2\<close> left by that request, then reports \<^verbatim>\<open>False\<close>, no delete
  is sent at all; the run ends with the line saying that the original was not deleted.
\<close>

theorem move_specific_blob_keeps_source_on_failure:
  assumes i: "inputs w = sc # bn # dc # rest"
    and g1: "sdk_get_blob_client sdk sc bn = Inr ()"
    and e: "sdk_exists sdk sc bn (cloud w) = (Inr True, s1)"
    and g2: "sdk_get_blob_client sdk dc bn = Inr ()"
    and c: "sdk_start_copy_from_url sdk dc bn sc bn s1 = (Inr (), s2)"
    and v: "cloud v = s2"
    and f: "fst (wait_for_copy sdk dc bn v) = Inr False"
  shows "delete_calls (new_events w (snd (move_specific_blob sdk w))) = [] \<and>
         fst (move_specific_blob sdk w) = Inr () \<and>
         last (new_events w (snd (move_specific_blob sdk w))) = Print MsgMoveFailed"
proof -
  let ?w0 = "w\<lparr>trace := trace w @ [Print MsgMoveSpecificTitle], inputs := rest\<rparr>"
  let ?aw = "at_wait ?w0 sc bn dc s2"
  let ?E = "new_events ?aw (snd (wait_for_copy sdk dc bn ?aw))"
  have e0: "sdk_exists sdk sc bn (cloud ?w0) = (Inr True, s1)" using e by simp
  have f0: "fst (wait_for_copy sdk dc bn ?aw) = Inr False"
    using move_specific_blob_at_wait[OF i v] f by simp
  have run: "move_specific_blob sdk w =
      (Inr (), emit (Print MsgMoveFailed) (snd (wait_for_copy sdk dc bn ?aw)))"
    using move_specific_try_failure[OF g1 e0 g2 c f0]
    by (simp add: move_specific_blob_inputs[OF i])
  have "trace (snd (move_specific_blob sdk w)) =
      trace w @ [Print MsgMoveSpecificTitle, Exists sc bn, Print (MsgStartingCopy bn sc dc),
                 StartCopy dc bn sc bn] @ ?E @ [Print MsgMoveFailed]"
    by (simp add: run emit_def wait_for_copy_trace(1)[of sdk dc bn ?aw]) (simp add: at_wait_def)
  then have ne: "new_events w (snd (move_specific_blob sdk w)) =
      [Print MsgMoveSpecificTitle, Exists sc bn, Print (MsgStartingCopy bn sc dc),
       StartCopy dc bn sc bn] @ ?E @ [Print MsgMoveFailed]"
    by (rule new_events_eq)
  have "delete_calls ?E = []" by (rule wait_for_copy_events(2))
  then have "delete_calls (new_events w (snd (move_specific_blob sdk w))) = []"
    by (simp add: ne delete_calls_def)
  moreover have "fst (move_specific_blob sdk w) = Inr ()" by (simp add: run)
  moreover have "last (new_events w (snd (move_specific_blob sdk w))) = Print MsgMoveFailed"
    by (simp add: ne)
  ultimately show ?thesis by blast
qed

theorem move_specific_blob_keeps_source_on_failure_witness:
  "inputs (console [''src'', ''x.txt'', ''dst''] [''pending'', ''failed'']) =
     ''src'' # ''x.txt'' # ''dst'' # [] \<and>
   fst (wait_for_copy (demo_sdk True [] (Inr ())) ''dst'' ''x.txt''
     (console [] [''pending'', ''failed''])) = Inr False \<and>
   delete_calls (new_events (console [''src'', ''x.txt'', ''dst''] [''pending'', ''failed''])
     (snd (move_specific_blob (demo_sdk True [] (Inr ()))
        (console [''src'', ''x.txt'', ''dst''] [''pending'', ''failed''])))) = []"
proof -
  have i: "inputs (console [''src'', ''x.txt'', ''dst''] [''pending'', ''failed'']) =
     ''src'' # ''x.txt'' # ''dst'' # []"
    by (simp add: console_def)
  have e: "sdk_exists (demo_sdk True [] (Inr ())) ''src'' ''x.txt''
      (cloud (console [''src'', ''x.txt'', ''dst''] [''pending'', ''failed''])) =
      (Inr True, [''pending'', ''failed''])"
    by (simp add: console_def demo_sdk_def)
  have c: "sdk_start_copy_from_url (demo_sdk True [] (Inr ())) ''dst'' ''x.txt'' ''src'' ''x.txt''
      [''pending'', ''failed''] = (Inr (), [''pending'', ''failed''])"
    by (simp add: demo_sdk_def)
  have v: "cloud (console [] [''pending'', ''failed'']) = [''pending'', ''failed'']"
    by (simp add: console_def)
  have f: "fst (wait_for_copy (demo_sdk True [] (Inr ())) ''dst'' ''x.txt''
     (console [] [''pending'', ''failed''])) = Inr False"
    by (simp add: demo_eval)
  have g1: "sdk_get_blob_client (demo_sdk True [] (Inr ())) ''src'' ''x.txt'' = Inr ()"
    and g2: "sdk_get_blob_client (demo_sdk True [] (Inr ())) ''dst'' ''x.txt'' = Inr ()"
    by (simp_all add: demo_sdk_def)
  from i f move_specific_blob_keeps_source_on_failure[OF i g1 e g2 c v f] show ?thesis
    by blast
qed

text \<open>
  C4 (as amended). When the copy-and-wait step of \<^verbatim>\<open>move_specific_blob\<close> is reached (both
  clients built, source found, copy request accepted) and \<^verbatim>\<open>wait_for_copy\<close> reports
  \<^verbatim>\<open>True\<close>, exactly one delete is sent and its target is the source blob; it is not the
  destination blob provided that the source and destination containers differ.
\<close>

theorem move_specific_blob_deletes_source_once:
  assumes i: "inputs w = sc # bn # dc # rest"
    and g1: "sdk_get_blob_client sdk sc bn = Inr ()"
    and e: "sdk_exists sdk sc bn (cloud w) = (Inr True, s1)"
    and g2: "sdk_get_blob_client sdk dc bn = Inr ()"
    and c: "sdk_start_copy_from_url sdk dc bn sc bn s1 = (Inr (), s2)"
    and v: "cloud v = s2"
    and f: "fst (wait_for_copy sdk dc bn v) = Inr True"
  shows "delete_calls (new_events w (snd (move_specific_blob sdk w))) = [DeleteBlob sc bn] \<and>
         (sc \<noteq> dc \<longrightarrow> DeleteBlob dc bn \<notin> set (new_events w (snd (move_specific_blob sdk w))))"
proof -
  let ?w0 = "w\<lparr>trace := trace w @ [Print MsgMoveSpecificTitle], inputs := rest\<rparr>"
  let ?aw = "at_wait ?w0 sc bn dc s2"
  let ?E = "new_events ?aw (snd (wait_for_copy sdk dc bn ?aw))"
  have e0: "sdk_exists sdk sc bn (cloud ?w0) = (Inr True, s1)" using e by simp
  have f0: "fst (wait_for_copy sdk dc bn ?aw) = Inr True"
    using move_specific_blob_at_wait[OF i v] f by simp
  from move_specific_try_success(1)[OF g1 e0 g2 c f0] obtain m where
    "trace (snd (move_specific_blob sdk w)) =
       trace (snd (wait_for_copy sdk dc bn ?aw)) @
         [Print (MsgDeletingOriginalFrom bn sc), DeleteBlob sc bn, Print m]"
    by (auto simp: move_specific_blob_inputs[OF i])
  then have "trace (snd (move_specific_blob sdk w)) =
      trace w @ [Print MsgMoveSpecificTitle, Exists sc bn, Print (MsgStartingCopy bn sc dc),
                 StartCopy dc bn sc bn] @ ?E @
        [Print (MsgDeletingOriginalFrom bn sc), DeleteBlob sc bn, Print m]"
    by (simp add: wait_for_copy_trace(1)[of sdk dc bn ?aw]) (simp add: at_wait_def)
  then have ne: "new_events w (snd (move_specific_blob sdk w)) =
      [Print MsgMoveSpecificTitle, Exists sc bn, Print (MsgStartingCopy bn sc dc),
       StartCopy dc bn sc bn] @ ?E @
        [Print (MsgDeletingOriginalFrom bn sc), DeleteBlob sc bn, Print m]"
    by (rule new_events_eq)
  have d: "delete_calls ?E = []" by (rule wait_for_copy_events(2))
  have n: "DeleteBlob dc bn \<notin> set ?E" by (rule wait_for_copy_events(3))
  from d have "delete_calls (new_events w (snd (move_specific_blob sdk w))) = [DeleteBlob sc bn]"
    by (simp add: ne delete_calls_def)
  moreover from n have "sc \<noteq> dc \<longrightarrow>
      DeleteBlob dc bn \<notin> set (new_events w (snd (move_specific_blob sdk w)))"
    by (simp add: ne)
  ultimately show ?thesis by blast
qed

text \<open>
  C4 as stated (never the destination blob) fails when the operator names the same
  container twice: the copy is requested on blob \<^verbatim>\<open>x.txt\<close> of container \<^verbatim>\<open>a\<close> and, once
  it has succeeded, that same blob is deleted.
\<close>

theorem move_specific_blob_same_container_counterexample:
  "fst (wait_for_copy (demo_sdk True [] (Inr ())) ''a'' ''x.txt'' (console [] [''success''])) =
     Inr True \<and>
   trace (snd (move_specific_blob (demo_sdk True [] (Inr ()))
            (console [''a'', ''x.txt'', ''a''] [''success'']))) =
     [Print MsgMoveSpecificTitle, Exists ''a'' ''x.txt'',
      Print (MsgStartingCopy ''x.txt'' ''a'' ''a''), StartCopy ''a'' ''x.txt'' ''a'' ''x.txt'',
      GetProps ''a'' ''x.txt'', Print (MsgCopyStatus ''success''), Print MsgCopyCompleted,
      Print (MsgDeletingOriginalFrom ''x.txt'' ''a''), DeleteBlob ''a'' ''x.txt'',
      Print MsgMoveCompleted]"
  by (simp add: run_eval)

theorem move_specific_blob_deletes_source_once_witness:
  "inputs (console [''src'', ''x.txt'', ''dst''] [''success'']) =
     ''src'' # ''x.txt'' # ''dst'' # [] \<and>
   fst (wait_for_copy (demo_sdk True [] (Inr ())) ''dst'' ''x.txt''
     (console [] [''success''])) = Inr True \<and> ''src'' \<noteq> ''dst'' \<and>
   delete_calls (new_events (console [''src'', ''x.txt'', ''dst''] [''success''])
     (snd (move_specific_blob (demo_sdk True [] (Inr ()))
        (console [''src'', ''x.txt'', ''dst''] [''success''])))) = [DeleteBlob ''src'' ''x.txt''] \<and>
   DeleteBlob ''dst'' ''x.txt'' \<notin> set (new_events (console [''src'', ''x.txt'', ''dst''] [''success''])
     (snd (move_specific_blob (demo_sdk True [] (Inr ()))
        (console [''src'', ''x.txt'', ''dst''] [''success'']))))"
proof -
  have i: "inputs (console [''src'', ''x.txt'', ''dst''] [''success'']) =
     ''src'' # ''x.txt'' # ''dst'' # []"
    by (simp add: console_def)
  have e: "sdk_exists (demo_sdk True [] (Inr ())) ''src'' ''x.txt''
      (cloud (console [''src'', ''x.txt'', ''dst''] [''success''])) = (Inr True, [''success''])"
    by (simp add: console_def demo_sdk_def)
  have c: "sdk_start_copy_from_url (demo_sdk True [] (Inr ())) ''dst'' ''x.txt'' ''src'' ''x.txt''
      [''success''] = (Inr (), [''success''])"
    by (simp add: demo_sdk_def)
  have v: "cloud (console [] [''success'']) = [''success'']"
    by (simp add: console_def)
  have f: "fst (wait_for_copy (demo_sdk True [] (Inr ())) ''dst'' ''x.txt''
     (console [] [''success''])) = Inr True"
    by (simp add: demo_eval)
  have n: "''src'' \<noteq> ''dst''" by simp
  have g1: "sdk_get_blob_client (demo_sdk True [] (Inr ())) ''src'' ''x.txt'' = Inr ()"
    and g2: "sdk_get_blob_client (demo_sdk True [] (Inr ())) ''dst'' ''x.txt'' = Inr ()"
    by (simp_all add: demo_sdk_def)
  from i f n move_specific_blob_deletes_source_once[OF i g1 e g2 c v f] show ?thesis
    by blast
qed

section \<open>Confirmation prompts\<close>

lemma lower_char_y: "lower_char ch = CHR ''y'' \<longleftrightarrow> ch = CHR ''y'' \<or> ch = CHR ''Y''"
proof
  assume l: "lower_char ch = CHR ''y''"
  show "ch = CHR ''y'' \<or> ch = CHR ''Y''"
  proof (cases "65 \<le> (of_char ch :: nat) \<and> (of_char ch :: nat) \<le> 90")
    case True
    with l have "char_of (of_char ch + 32 :: nat) = CHR ''y''"
      by (simp add: lower_char_def)
    then have "(of_char (char_of (of_char ch + 32 :: nat) :: char) :: nat) = of_char (CHR ''y'')"
      by simp
    with True have n: "(of_char ch :: nat) = 89" by (simp add: of_char_of)
    have "ch = char_of (of_char ch :: nat)" by simp
    also have "\<dots> = char_of (89 :: nat)" by (simp only: n)
    also have "\<dots> = CHR ''Y''" by code_simp
    finally show ?thesis by simp
  next
    case False
    with l show ?thesis by (simp add: lower_char_def)
  qed
next
  have "lower_char CHR ''y'' = CHR ''y''" and "lower_char CHR ''Y'' = CHR ''y''"
    by code_simp+
  moreover assume "ch = CHR ''y'' \<or> ch = CHR ''Y''"
  ultimately show "lower_char ch = CHR ''y''" by auto
qed

lemma str_lower_y: "str_lower s = ''y'' \<longleftrightarrow> s = ''y'' \<or> s = ''Y''"
proof (cases s)
  case Nil
  then show ?thesis by (simp add: str_lower_def)
next
  case (Cons ch t)
  then show ?thesis
    using lower_char_y[of ch] by (cases t) (auto simp: str_lower_def)
qed


lemma move_all_blobs_eof:
  "inputs w = [] \<or> (\<exists>a. inputs w = [a]) \<or> (\<exists>a b. inputs w = [a, b]) \<Longrightarrow>
   new_events w (snd (move_all_blobs sdk w)) = [Print MsgMoveAllTitle]"
  by (auto simp: move_all_blobs_def then_io_def bind_io_def print_msg_def input_line_def
        emit_def new_events_def)

lemma move_all_blobs_declined:
  "inputs w = sc # dc # confirm # rest \<Longrightarrow> str_lower confirm \<noteq> ''y'' \<Longrightarrow>
   move_all_blobs sdk w =
     (Inr (), w\<lparr>trace := trace w @ [Print MsgMoveAllTitle, Print MsgOperationCancelled],
                inputs := rest\<rparr>)"
  by (simp add: move_all_blobs_def then_io_def bind_io_def print_msg_def input_line_def emit_def)

lemma short_or_three:
  "xs = [] \<or> (\<exists>a. xs = [a]) \<or> (\<exists>a b. xs = [a, b]) \<or> (\<exists>a b c t. xs = a # b # c # t)"
  by (cases xs; simp) (metis list.exhaust)

text \<open>
  C8. A run of \<^verbatim>\<open>move_all_blobs\<close> that sends any SDK request at all (a listing, a copy, a
  fetch or a delete) has read the two container names and then the answer \<^verbatim>\<open>y\<close> or \<^verbatim>\<open>Y\<close>.
  With any other answer it prints the cancellation line and returns: no request is sent
  and the service state is untouched.
\<close>

theorem move_all_blobs_needs_confirmation:
  "(requests (new_events w (snd (move_all_blobs sdk w))) \<noteq> [] \<longrightarrow>
      (\<exists>sc dc confirm rest. inputs w = sc # dc # confirm # rest \<and>
         (confirm = ''y'' \<or> confirm = ''Y''))) \<and>
   (inputs w = sc # dc # confirm # rest \<and> confirm \<noteq> ''y'' \<and> confirm \<noteq> ''Y'' \<longrightarrow>
      fst (move_all_blobs sdk w) = Inr () \<and>
      new_events w (snd (move_all_blobs sdk w)) =
        [Print MsgMoveAllTitle, Print MsgOperationCancelled] \<and>
      requests (new_events w (snd (move_all_blobs sdk w))) = [] \<and>
      cloud (snd (move_all_blobs sdk w)) = cloud w)"
proof (intro conjI impI)
  assume r: "requests (new_events w (snd (move_all_blobs sdk w))) \<noteq> []"
  from short_or_three[of "inputs w"] consider
      "inputs w = [] \<or> (\<exists>a. inputs w = [a]) \<or> (\<exists>a b. inputs w = [a, b])"
    | a b c t where "inputs w = a # b # c # t"
    by blast
  then show "\<exists>sc dc confirm rest. inputs w = sc # dc # confirm # rest \<and>
         (confirm = ''y'' \<or> confirm = ''Y'')"
  proof cases
    case 1
    from move_all_blobs_eof[OF 1, of sdk] r show ?thesis by (simp add: requests_def)
  next
    case (2 a b c t)
    show ?thesis
    proof (cases "str_lower c = ''y''")
      case True
      with 2 show ?thesis by (simp add: str_lower_y)
    next
      case False
      from move_all_blobs_declined[OF 2 False, of sdk] r show ?thesis
        by (simp add: requests_def new_events_def)
    qed
  qed
next
  assume h: "inputs w = sc # dc # confirm # rest \<and> confirm \<noteq> ''y'' \<and> confirm \<noteq> ''Y''"
  then have i: "inputs w = sc # dc # confirm # rest" and n: "str_lower confirm \<noteq> ''y''"
    by (simp_all add: str_lower_y)
  note d = move_all_blobs_declined[OF i n, of sdk]
  show "fst (move_all_blobs sdk w) = Inr ()" by (simp add: d)
  show "new_events w (snd (move_all_blobs sdk w)) =
        [Print MsgMoveAllTitle, Print MsgOperationCancelled]"
    by (simp add: d new_events_def)
  show "requests (new_events w (snd (move_all_blobs sdk w))) = []"
    by (simp add: d new_events_def requests_def)
  show "cloud (snd (move_all_blobs sdk w)) = cloud w" by (simp add: d)
qed

lemma delete_item_eof:
  "length (inputs w) < 5 \<Longrightarrow>
   new_events w (snd (delete_item sdk w)) = [Print MsgDeleteItemTitle]"
  by (auto simp: delete_item_def then_io_def bind_io_def print_msg_def input_line_def
        emit_def new_events_def split: list.splits)

lemma delete_item_declined:
  "inputs w = db # cn # it # pk # confirm # rest \<Longrightarrow> str_lower confirm \<noteq> ''y'' \<Longrightarrow>
   delete_item sdk w =
     (Inr (), w\<lparr>trace := trace w @ [Print MsgDeleteItemTitle, Print MsgOperationCancelled],
                inputs := rest\<rparr>)"
  by (simp add: delete_item_def then_io_def bind_io_def print_msg_def input_line_def emit_def)

lemma short_or_five:
  "length xs < 5 \<or> (\<exists>a b c d e t. xs = a # b # c # d # e # t)"
proof (cases "length xs < 5")
  case False
  then obtain a t1 where "xs = a # t1" "4 \<le> length t1" by (cases xs) auto
  moreover then obtain b t2 where "t1 = b # t2" "3 \<le> length t2" by (cases t1) auto
  moreover then obtain c t3 where "t2 = c # t3" "2 \<le> length t3" by (cases t2) auto
  moreover then obtain d t4 where "t3 = d # t4" "1 \<le> length t4" by (cases t3) auto
  moreover then obtain e t5 where "t4 = e # t5" by (cases t4) auto
  ultimately show ?thesis by blast
qed simp

text \<open>
  C9. A run of the Cosmos \<^verbatim>\<open>delete_item\<close> that sends a request has read the four
  identifiers and then the answer \<^verbatim>\<open>y\<close> or \<^verbatim>\<open>Y\<close>. With any other answer it prints the
  cancellation line and returns: no delete is sent and the service state is untouched.
\<close>

theorem delete_item_needs_confirmation:
  "(requests (new_events w (snd (delete_item sdk w))) \<noteq> [] \<longrightarrow>
      (\<exists>db cn it pk confirm rest. inputs w = db # cn # it # pk # confirm # rest \<and>
         (confirm = ''y'' \<or> confirm = ''Y''))) \<and>
   (inputs w = db # cn # it # pk # confirm # rest \<and> confirm \<noteq> ''y'' \<and> confirm \<noteq> ''Y'' \<longrightarrow>
      fst (delete_item sdk w) = Inr () \<and>
      new_events w (snd (delete_item sdk w)) =
        [Print MsgDeleteItemTitle, Print MsgOperationCancelled] \<and>
      requests (new_events w (snd (delete_item sdk w))) = [] \<and>
      cloud (snd (delete_item sdk w)) = cloud w)"
proof (intro conjI impI)
  assume r: "requests (new_events w (snd (delete_item sdk w))) \<noteq> []"
  from short_or_five[of "inputs w"] consider "length (inputs w) < 5"
    | a b c d e t where "inputs w = a # b # c # d # e # t"
    by blast
  then show "\<exists>db cn it pk confirm rest. inputs w = db # cn # it # pk # confirm # rest \<and>
         (confirm = ''y'' \<or> confirm = ''Y'')"
  proof cases
    case 1
    from delete_item_eof[OF 1, of sdk] r show ?thesis by (simp add: requests_def)
  next
    case (2 a b c d e t)
    show ?thesis
    proof (cases "str_lower e = ''y''")
      case True
      with 2 show ?thesis by (simp add: str_lower_y)
    next
      case False
      from delete_item_declined[OF 2 False, of sdk] r show ?thesis
        by (simp add: requests_def new_events_def)
    qed
  qed
next
  assume h: "inputs w = db # cn # it # pk # confirm # rest \<and> confirm \<noteq> ''y'' \<and> confirm \<noteq> ''Y''"
  then have i: "inputs w = db # cn # it # pk # confirm # rest" and n: "str_lower confirm \<noteq> ''y''"
    by (simp_all add: str_lower_y)
  note d = delete_item_declined[OF i n, of sdk]
  show "fst (delete_item sdk w) = Inr ()" by (simp add: d)
  show "new_events w (snd (delete_item sdk w)) =
        [Print MsgDeleteItemTitle, Print MsgOperationCancelled]"
    by (simp add: d new_events_def)
  show "requests (new_events w (snd (delete_item sdk w))) = []"
    by (simp add: d new_events_def requests_def)
  show "cloud (snd (delete_item sdk w)) = cloud w" by (simp add: d)
qed

theorem move_all_blobs_needs_confirmation_witness:
  "requests (new_events (console [''src'', ''dst'', ''Y''] [''success''])
     (snd (move_all_blobs (demo_sdk True [''x.txt''] (Inr ()))
        (console [''src'', ''dst'', ''Y''] [''success''])))) \<noteq> [] \<and>
   (\<exists>sc dc confirm rest.
      inputs (console [''src'', ''dst'', ''Y''] [''success'']) = sc # dc # confirm # rest \<and>
      (confirm = ''y'' \<or> confirm = ''Y'')) \<and>
   inputs (console [''src'', ''dst'', ''no''] [''success'']) = ''src'' # ''dst'' # ''no'' # [] \<and>
   ''no'' \<noteq> ''y'' \<and> ''no'' \<noteq> ''Y'' \<and>
   new_events (console [''src'', ''dst'', ''no''] [''success''])
     (snd (move_all_blobs (demo_sdk True [''x.txt''] (Inr ()))
        (console [''src'', ''dst'', ''no''] [''success'']))) =
     [Print MsgMoveAllTitle, Print MsgOperationCancelled]"
proof -
  have r: "requests (new_events (console [''src'', ''dst'', ''Y''] [''success''])
     (snd (move_all_blobs (demo_sdk True [''x.txt''] (Inr ()))
        (console [''src'', ''dst'', ''Y''] [''success''])))) \<noteq> []"
    by (simp add: move_all_blobs_def move_all_try_def io_defs demo_eval str_lower_y requests_def)
  have i: "inputs (console [''src'', ''dst'', ''no''] [''success'']) =
      ''src'' # ''dst'' # ''no'' # []"
    by (simp add: console_def)
  have n: "''no'' \<noteq> ''y'' \<and> ''no'' \<noteq> ''Y''" by simp
  from r i n
    move_all_blobs_needs_confirmation[of "console [''src'', ''dst'', ''Y''] [''success'']"
      "demo_sdk True [''x.txt''] (Inr ())"]
    move_all_blobs_needs_confirmation[of "console [''src'', ''dst'', ''no''] [''success'']"
      "demo_sdk True [''x.txt''] (Inr ())" "''src''" "''dst''" "''no''" "[]"]
  show ?thesis by blast
qed

theorem delete_item_needs_confirmation_witness:
  "requests (new_events (console [''db'', ''books'', ''item3'', ''pk'', ''y''] 0)
     (snd (delete_item demo_cosmos (console [''db'', ''books'', ''item3'', ''pk'', ''y''] 0)))) \<noteq> [] \<and>
   (\<exists>db cn it pk confirm rest.
      inputs (console [''db'', ''books'', ''item3'', ''pk'', ''y''] (0 :: nat)) =
        db # cn # it # pk # confirm # rest \<and>
      (confirm = ''y'' \<or> confirm = ''Y'')) \<and>
   inputs (console [''db'', ''books'', ''item3'', ''pk'', ''n''] (0 :: nat)) =
     ''db'' # ''books'' # ''item3'' # ''pk'' # ''n'' # [] \<and>
   ''n'' \<noteq> ''y'' \<and> ''n'' \<noteq> ''Y'' \<and>
   new_events (console [''db'', ''books'', ''item3'', ''pk'', ''n''] 0)
     (snd (delete_item demo_cosmos (console [''db'', ''books'', ''item3'', ''pk'', ''n''] 0))) =
     [Print MsgDeleteItemTitle, Print MsgOperationCancelled] \<and>
   cloud (snd (delete_item demo_cosmos (console [''db'', ''books'', ''item3'', ''pk'', ''n''] 0))) = 0"
proof -
  have r: "requests (new_events (console [''db'', ''books'', ''item3'', ''pk'', ''y''] 0)
     (snd (delete_item demo_cosmos (console [''db'', ''books'', ''item3'', ''pk'', ''y''] 0)))) \<noteq> []"
    by (simp add: delete_item_def io_defs demo_eval demo_cosmos_def str_lower_y requests_def)
  have i: "inputs (console [''db'', ''books'', ''item3'', ''pk'', ''n''] (0 :: nat)) =
     ''db'' # ''books'' # ''item3'' # ''pk'' # ''n'' # []"
    by (simp add: console_def)
  have n: "''n'' \<noteq> ''y'' \<and> ''n'' \<noteq> ''Y''" by simp
  have c: "cloud (console [''db'', ''books'', ''item3'', ''pk'', ''n''] (0 :: nat)) = 0"
    by (simp add: console_def)
  from r i n c
    delete_item_needs_confirmation[of "console [''db'', ''books'', ''item3'', ''pk'', ''y''] 0"
      demo_cosmos]
    delete_item_needs_confirmation[of "console [''db'', ''books'', ''item3'', ''pk'', ''n''] 0"
      demo_cosmos "''db''" "''books''" "''item3''" "''pk''" "''n''" "[]"]
  show ?thesis by simp
qed

section \<open>Claim about \<^verbatim>\<open>set_blob_metadata\<close>\<close>

lemma metadata_loop_parse_aux:
  "inputs w = ls \<Longrightarrow>
   metadata_loop md w = (fst (parse_pairs md ls), w\<lparr>inputs := snd (parse_pairs md ls)\<rparr>)"
proof (induction md ls arbitrary: w rule: parse_pairs.induct)
  case (1 md)
  then show ?case
    by (subst metadata_loop.simps) (simp add: input_line_def)
next
  case (2 md k ls)
  show ?case
  proof (cases "k = []")
    case True
    with "2.prems" show ?thesis
      by (subst metadata_loop.simps) (simp add: input_line_def)
  next
    case False
    show ?thesis
    proof (cases ls)
      case Nil
      with False "2.prems" show ?thesis
        by (subst metadata_loop.simps) (simp add: input_line_def)
    next
      case (Cons v ls')
      have "metadata_loop (AList.update k v md) (w\<lparr>inputs := ls'\<rparr>) =
            (fst (parse_pairs (AList.update k v md) ls'),
             w\<lparr>inputs := snd (parse_pairs (AList.update k v md) ls')\<rparr>)"
        using "2.IH"[OF False Cons, of "w\<lparr>inputs := ls'\<rparr>"] by simp
      with False Cons "2.prems" show ?thesis
        by (subst metadata_loop.simps) (simp add: input_line_def)
    qed
  qed
qed

lemma metadata_loop_parse:
  "metadata_loop md w =
     (fst (parse_pairs md (inputs w)), w\<lparr>inputs := snd (parse_pairs md (inputs w))\<rparr>)"
  by (rule metadata_loop_parse_aux) simp

lemma update_nonempty: "AList.update k v md \<noteq> []"
  by (cases md) simp_all

lemma fold_update_nonempty:
  "kvs \<noteq> [] \<or> md \<noteq> [] \<Longrightarrow> fold (\<lambda>(k, v). AList.update k v) kvs md \<noteq> []"
proof (induction kvs arbitrary: md)
  case Nil
  then show ?case by simp
next
  case (Cons a kvs)
  obtain k v where a: "a = (k, v)" by (cases a)
  have "fold (\<lambda>(k, v). AList.update k v) kvs (AList.update k v md) \<noteq> []"
    by (rule Cons.IH) (simp add: update_nonempty)
  then show ?case by (simp add: a)
qed

lemma parse_pairs_lines:
  "\<forall>(k, v)\<in>set kvs. k \<noteq> [] \<Longrightarrow>
   parse_pairs md (pair_lines kvs @ [] # tail) = (Inr (fold (\<lambda>(k, v). AList.update k v) kvs md), tail)"
proof (induction kvs arbitrary: md)
  case Nil
  show ?case by simp
next
  case (Cons a kvs)
  obtain k v where a: "a = (k, v)" by (cases a)
  from Cons.prems a have k: "k \<noteq> []" and r: "\<forall>(k, v)\<in>set kvs. k \<noteq> []" by auto
  from Cons.IH[OF r, of "AList.update k v md"] k show ?case
    by (simp add: a)
qed

lemma print_pairs_run:
  "print_pairs md w = (Inr (), w\<lparr>trace := trace w @ map (\<lambda>(k, v). Print (MsgMetadataPair k v)) md\<rparr>)"
  by (induction md arbitrary: w)
     (auto simp: return_io_def then_io_def bind_io_def print_msg_def emit_def)

lemma no_metadata_call_in_pairs:
  "metadata_calls (map (\<lambda>(k, v). Print (MsgMetadataPair k v)) md) = []"
  by (induction md) (auto simp: metadata_calls_def)

lemma metadata_calls_Cons:
  "metadata_calls (ev # evs) = (if is_set_metadata ev then ev # metadata_calls evs else metadata_calls evs)"
  by (simp add: metadata_calls_def)

lemma metadata_calls_Nil: "metadata_calls [] = []"
  by (simp add: metadata_calls_def)

lemma metadata_calls_append:
  "metadata_calls (evs @ evs') = metadata_calls evs @ metadata_calls evs'"
  by (simp add: metadata_calls_def)

lemma set_blob_metadata_inputs:
  "inputs w = cn # bn # ins \<Longrightarrow>
   set_blob_metadata sdk w =
     set_blob_metadata_try sdk cn bn (w\<lparr>trace := trace w @ [Print MsgSetMetadataTitle], inputs := ins\<rparr>)"
  by (simp add: set_blob_metadata_def io_defs emit_def)

lemma set_blob_metadata_try_quiet:
  assumes i: "inputs w = pair_lines kvs @ [] # tail"
    and k: "\<forall>(k, v)\<in>set kvs. k \<noteq> []"
    and d: "kvs = [] \<or>
            (\<exists>confirm rest. tail = confirm # rest \<and> confirm \<noteq> ''y'' \<and> confirm \<noteq> ''Y'')"
  shows "\<exists>evs. trace (snd (set_blob_metadata_try sdk cn bn w)) = trace w @ evs \<and>
               metadata_calls evs = []"
proof (cases "sdk_get_blob_client sdk cn bn")
  case refused: (Inl ex)
  then show ?thesis
    by (simp add: set_blob_metadata_try_def io_defs emit_def metadata_calls_def)
next
  case built: (Inr u)
  obtain x s1 where e: "sdk_exists sdk cn bn (cloud w) = (x, s1)"
    by (cases "sdk_exists sdk cn bn (cloud w)")
  have p: "parse_pairs [] (inputs w) = (Inr (fold (\<lambda>(k, v). AList.update k v) kvs []), tail)"
    using parse_pairs_lines[OF k] i by simp
  show ?thesis
  proof (cases x)
    case (Inl ex)
    with e built show ?thesis
      by (simp add: set_blob_metadata_try_def io_defs emit_def metadata_calls_def)
  next
    case (Inr found)
    show ?thesis
    proof (cases found)
      case False
      with e Inr built show ?thesis
        by (simp add: set_blob_metadata_try_def io_defs emit_def metadata_calls_def)
    next
      case True
      show ?thesis
      proof (cases "kvs = []")
        case empty: True
        with e Inr True p built show ?thesis
          by (simp add: set_blob_metadata_try_def io_defs emit_def metadata_calls_def
                metadata_loop_parse)
      next
        case False
        then have ne: "fold (\<lambda>(k, v). AList.update k v) kvs [] \<noteq> []"
          by (simp add: fold_update_nonempty)
        from False d obtain confirm rest where t: "tail = confirm # rest"
          and n: "str_lower confirm \<noteq> ''y''"
          by (auto simp: str_lower_y)
        from e Inr True p ne t n built show ?thesis
          by (simp add: set_blob_metadata_try_def io_defs emit_def metadata_loop_parse
                print_pairs_run)
             (simp add: metadata_calls_Cons metadata_calls_Nil metadata_calls_append
                no_metadata_call_in_pairs)
      qed
    qed
  qed
qed

text \<open>
  C10. When the operator, after the container and blob names, enters the pairs \<open>kvs\<close>
  (each with a non-empty key) and then the empty key, and either there are no pairs or the
  answer to the overwrite question is neither \<^verbatim>\<open>y\<close> nor \<^verbatim>\<open>Y\<close>, the run of
  \<^verbatim>\<open>set_blob_metadata\<close> sends no \<^verbatim>\<open>set_blob_metadata\<close> request, whatever the service answers.
\<close>

theorem set_blob_metadata_guarded:
  assumes "inputs w = cn # bn # pair_lines kvs @ [] # tail"
    and "\<forall>(k, v)\<in>set kvs. k \<noteq> []"
    and "kvs = [] \<or>
         (\<exists>confirm rest. tail = confirm # rest \<and> confirm \<noteq> ''y'' \<and> confirm \<noteq> ''Y'')"
  shows "metadata_calls (new_events w (snd (set_blob_metadata sdk w))) = []"
proof -
  let ?w0 = "w\<lparr>trace := trace w @ [Print MsgSetMetadataTitle],
               inputs := pair_lines kvs @ [] # tail\<rparr>"
  have i0: "inputs ?w0 = pair_lines kvs @ [] # tail" by simp
  from set_blob_metadata_try_quiet[OF i0 assms(2,3), of sdk cn bn] obtain evs where
    t: "trace (snd (set_blob_metadata_try sdk cn bn ?w0)) = trace ?w0 @ evs"
    and q: "metadata_calls evs = []"
    by blast
  from t have "trace (snd (set_blob_metadata sdk w)) = trace w @ Print MsgSetMetadataTitle # evs"
    by (simp add: set_blob_metadata_inputs[OF assms(1)])
  then have "new_events w (snd (set_blob_metadata sdk w)) = Print MsgSetMetadataTitle # evs"
    by (rule new_events_eq)
  with q show ?thesis by (simp add: metadata_calls_def)
qed

theorem set_blob_metadata_guarded_witness:
  "inputs (console [''c'', ''x.txt'', [], ''later''] [''success'']) =
     ''c'' # ''x.txt'' # pair_lines [] @ [] # [''later''] \<and>
   metadata_calls (new_events (console [''c'', ''x.txt'', [], ''later''] [''success''])
     (snd (set_blob_metadata (demo_sdk True [] (Inr ()))
        (console [''c'', ''x.txt'', [], ''later''] [''success''])))) = [] \<and>
   inputs (console [''c'', ''x.txt'', ''owner'', ''ops'', [], ''n''] [''success'']) =
     ''c'' # ''x.txt'' # pair_lines [(''owner'', ''ops'')] @ [] # [''n''] \<and>
   metadata_calls (new_events (console [''c'', ''x.txt'', ''owner'', ''ops'', [], ''n''] [''success''])
     (snd (set_blob_metadata (demo_sdk True [] (Inr ()))
        (console [''c'', ''x.txt'', ''owner'', ''ops'', [], ''n''] [''success''])))) = []"
proof -
  have i1: "inputs (console [''c'', ''x.txt'', [], ''later''] [''success'']) =
     ''c'' # ''x.txt'' # pair_lines [] @ [] # [''later'']"
    by (simp add: console_def)
  have k1: "\<forall>(k, v)\<in>set ([] :: (string \<times> string) list). k \<noteq> []" by simp
  have d1: "([] :: (string \<times> string) list) = [] \<or>
      (\<exists>confirm rest. [''later''] = confirm # rest \<and> confirm \<noteq> ''y'' \<and> confirm \<noteq> ''Y'')"
    by simp
  have i2: "inputs (console [''c'', ''x.txt'', ''owner'', ''ops'', [], ''n''] [''success'']) =
     ''c'' # ''x.txt'' # pair_lines [(''owner'', ''ops'')] @ [] # [''n'']"
    by (simp add: console_def)
  have k2: "\<forall>(k, v)\<in>set [(''owner'', ''ops'')]. k \<noteq> []" by simp
  have d2: "[(''owner'', ''ops'')] = [] \<or>
      (\<exists>confirm rest. [''n''] = confirm # rest \<and> confirm \<noteq> ''y'' \<and> confirm \<noteq> ''Y'')"
    by simp
  from i1 i2
    set_blob_metadata_guarded[OF i1 k1 d1, of "demo_sdk True [] (Inr ())"]
    set_blob_metadata_guarded[OF i2 k2 d2, of "demo_sdk True [] (Inr ())"]
  show ?thesis by blast
qed

text \<open>With the answer \<^verbatim>\<open>y\<close> the same dialogue does send the metadata.\<close>

lemma set_blob_metadata_confirmed_run:
  "metadata_calls (new_events (console [''c'', ''x.txt'', ''owner'', ''ops'', [], ''y''] [''success''])
     (snd (set_blob_metadata (demo_sdk True [] (Inr ()))
        (console [''c'', ''x.txt'', ''owner'', ''ops'', [], ''y''] [''success''])))) =
     [SetMetadata ''c'' ''x.txt'' [(''owner'', ''ops'')]]"
  by (simp add: set_blob_metadata_def set_blob_metadata_try_def io_defs metadata_loop_parse
        print_pairs_run str_lower_y demo_sdk_def console_def emit_def new_events_def
        metadata_calls_def)

section \<open>The bulk move, item by item\<close>

lemma wait_for_copy_outcome:
  "wait_for_copy sdk c b w =
     (fst (wait_outcome sdk c b (cloud w)),
      w\<lparr>trace := trace w @ fst (snd (wait_outcome sdk c b (cloud w))),
        cloud := snd (snd (wait_outcome sdk c b (cloud w)))\<rparr>)"
proof -
  let ?k = "console [] (cloud w)"
  have c: "cloud w = cloud ?k" by (simp add: console_def)
  have t: "trace ?k = []" by (simp add: console_def)
  have "new_events ?k (snd (wait_for_copy sdk c b ?k)) = trace (snd (wait_for_copy sdk c b ?k))"
    by (simp add: new_events_def t)
  with wait_for_copy_frame[OF c, of sdk c b] show ?thesis
    by (simp add: wait_outcome_def prod_eq_iff)
qed

lemma wait_outcome_events:
  "copy_calls (fst (snd (wait_outcome sdk c b s))) = []"
  "delete_calls (fst (snd (wait_outcome sdk c b s))) = []"
  "error_reports (fst (snd (wait_outcome sdk c b s))) = []"
  "missing_reports (fst (snd (wait_outcome sdk c b s))) = []"
  "length (success_reports (fst (snd (wait_outcome sdk c b s)))) =
     (if fst (wait_outcome sdk c b s) = Inr True then 1 else 0)"
  "without_exists (requests (fst (snd (wait_outcome sdk c b s)))) =
     requests (fst (snd (wait_outcome sdk c b s)))"
proof -
  let ?k = "console [] s"
  obtain sts fin where
    ne: "new_events ?k (snd (wait_for_copy sdk c b ?k)) = concat (map (poll_round c b) sts) @ fin"
    and fin: "wait_ending c b (length sts) (fst (wait_for_copy sdk c b ?k)) fin"
    using wait_for_copy_shape[of sdk c b ?k] by blast
  have ev: "fst (snd (wait_outcome sdk c b s)) = concat (map (poll_round c b) sts) @ fin"
    using ne by (simp add: wait_outcome_def new_events_def console_def)
  have res: "fst (wait_outcome sdk c b s) = fst (wait_for_copy sdk c b ?k)"
    by (simp add: wait_outcome_def)
  have r: "\<And>P. \<not> P (GetProps c b) \<Longrightarrow> \<not> P (Sleep 3) \<Longrightarrow> (\<And>st. \<not> P (Print (MsgCopyStatus st))) \<Longrightarrow>
      filter P (concat (map (poll_round c b) sts)) = []"
    by (induction sts) (simp_all add: poll_round_def)
  have q: "requests (concat (map (poll_round c b) sts)) = replicate (length sts) (GetProps c b)"
    by (induction sts) (simp_all add: poll_round_def requests_def)
  from fin show "copy_calls (fst (snd (wait_outcome sdk c b s))) = []"
    by (auto simp: ev copy_calls_def r wait_ending_def)
  from fin show "delete_calls (fst (snd (wait_outcome sdk c b s))) = []"
    by (auto simp: ev delete_calls_def r wait_ending_def)
  from fin show "error_reports (fst (snd (wait_outcome sdk c b s))) = []"
    by (auto simp: ev error_reports_def r wait_ending_def)
  from fin show "missing_reports (fst (snd (wait_outcome sdk c b s))) = []"
    by (auto simp: ev missing_reports_def r wait_ending_def)
  from fin show "length (success_reports (fst (snd (wait_outcome sdk c b s)))) =
     (if fst (wait_outcome sdk c b s) = Inr True then 1 else 0)"
    by (auto simp: ev res success_reports_def r wait_ending_def)
  have "without_exists (requests (concat (map (poll_round c b) sts))) =
        requests (concat (map (poll_round c b) sts))"
    by (simp add: q without_exists_def)
  moreover from fin have "without_exists (requests fin) = requests fin"
    by (auto simp: wait_ending_def without_exists_def requests_def)
  ultimately show "without_exists (requests (fst (snd (wait_outcome sdk c b s)))) =
     requests (fst (snd (wait_outcome sdk c b s)))"
    by (simp add: ev requests_def without_exists_def)
qed

lemma advance_sel [simp]:
  "trace (advance w evs s) = trace w @ evs"
  "cloud (advance w evs s) = s"
  "inputs (advance w evs s) = inputs w"
  by (simp_all add: advance_def)

lemma advance_advance [simp]: "advance (advance w a s) b s' = advance w (a @ b) s'"
  by (simp add: advance_def)

lemma emit_advance: "emit ev w = advance w [ev] (cloud w)"
  by (simp add: emit_def advance_def)

lemma print_msg_advance: "print_msg m w = (Inr (), advance w [Print m] (cloud w))"
  by (simp add: print_msg_def emit_advance)

lemma request_advance:
  "request ev f w = (fst (f (cloud w)), advance w [ev] (snd (f (cloud w))))"
  by (simp add: request_def split_beta emit_def advance_def)

lemma wait_for_copy_advance:
  "wait_for_copy sdk c b w =
     (fst (wait_outcome sdk c b (cloud w)),
      advance w (fst (snd (wait_outcome sdk c b (cloud w))))
        (snd (snd (wait_outcome sdk c b (cloud w)))))"
  by (subst wait_for_copy_outcome) (simp add: advance_def)

lemma new_events_advance [simp]: "new_events w (advance w evs s) = evs"
  by (simp add: new_events_def)

lemmas io_adv =
  bind_io_alt then_io_def try_except_alt return_io_def print_msg_advance request_advance
  wait_for_copy_advance call_exists_def call_start_copy_from_url_def call_delete_blob_def
  call_list_blobs_def get_blob_client_def get_container_client_def

declare move_all_loop.simps [simp del]

lemma move_all_loop_cases
  [case_names client_raises copy_raises wait_raises delete_raises moved skipped]:
  obtains
    e where "sdk_get_blob_client sdk sc name = Inl e \<or>
             sdk_get_blob_client sdk sc name = Inr () \<and> sdk_get_blob_client sdk dc name = Inl e"
      and "move_all_loop sdk sc dc tot i (name # rest) w =
             (Inl e, advance w [Print (MsgMoving (i + 1) tot name)] (cloud w))"
  | e s1 where "sdk_start_copy_from_url sdk dc name sc name (cloud w) = (Inl e, s1)"
      and "move_all_loop sdk sc dc tot i (name # rest) w =
             (Inl e, advance w [Print (MsgMoving (i + 1) tot name), StartCopy dc name sc name] s1)"
      and "sdk_get_blob_client sdk sc name = Inr ()"
      and "sdk_get_blob_client sdk dc name = Inr ()"
  | s1 e where "sdk_start_copy_from_url sdk dc name sc name (cloud w) = (Inr (), s1)"
      and "fst (wait_outcome sdk dc name s1) = Inl e"
      and "move_all_loop sdk sc dc tot i (name # rest) w =
             (Inl e, advance w
                ([Print (MsgMoving (i + 1) tot name), StartCopy dc name sc name] @
                 fst (snd (wait_outcome sdk dc name s1)))
                (snd (snd (wait_outcome sdk dc name s1))))"
      and "sdk_get_blob_client sdk sc name = Inr ()"
      and "sdk_get_blob_client sdk dc name = Inr ()"
  | s1 e s3 where "sdk_start_copy_from_url sdk dc name sc name (cloud w) = (Inr (), s1)"
      and "fst (wait_outcome sdk dc name s1) = Inr True"
      and "sdk_delete_blob sdk sc name (snd (snd (wait_outcome sdk dc name s1))) = (Inl e, s3)"
      and "move_all_loop sdk sc dc tot i (name # rest) w =
             (Inl e, advance w
                ([Print (MsgMoving (i + 1) tot name), StartCopy dc name sc name] @
                 fst (snd (wait_outcome sdk dc name s1)) @
                 [Print (MsgDeletingOriginal name), DeleteBlob sc name]) s3)"
      and "sdk_get_blob_client sdk sc name = Inr ()"
      and "sdk_get_blob_client sdk dc name = Inr ()"
  | s1 s3 where "sdk_start_copy_from_url sdk dc name sc name (cloud w) = (Inr (), s1)"
      and "fst (wait_outcome sdk dc name s1) = Inr True"
      and "sdk_delete_blob sdk sc name (snd (snd (wait_outcome sdk dc name s1))) = (Inr (), s3)"
      and "move_all_loop sdk sc dc tot i (name # rest) w =
             move_all_loop sdk sc dc tot (i + 1) rest
               (advance w
                ([Print (MsgMoving (i + 1) tot name), StartCopy dc name sc name] @
                 fst (snd (wait_outcome sdk dc name s1)) @
                 [Print (MsgDeletingOriginal name), DeleteBlob sc name]) s3)"
      and "sdk_get_blob_client sdk sc name = Inr ()"
      and "sdk_get_blob_client sdk dc name = Inr ()"
  | s1 where "sdk_start_copy_from_url sdk dc name sc name (cloud w) = (Inr (), s1)"
      and "fst (wait_outcome sdk dc name s1) = Inr False"
      and "move_all_loop sdk sc dc tot i (name # rest) w =
             move_all_loop sdk sc dc tot (i + 1) rest
               (advance w
                ([Print (MsgMoving (i + 1) tot name), StartCopy dc name sc name] @
                 fst (snd (wait_outcome sdk dc name s1)) @ [Print (MsgFailedToMove name)])
                (snd (snd (wait_outcome sdk dc name s1))))"
      and "sdk_get_blob_client sdk sc name = Inr ()"
      and "sdk_get_blob_client sdk dc name = Inr ()"
proof (cases "sdk_get_blob_client sdk sc name")
  case (Inl e)
  with that(1)[of e] show thesis by (simp add: io_adv move_all_loop.simps)
next
  case g1: (Inr u1)
  show thesis
  proof (cases "sdk_get_blob_client sdk dc name")
    case (Inl e)
    with g1 that(1)[of e] show thesis by (simp add: io_adv move_all_loop.simps)
  next
    case g2: (Inr u2)
  obtain x s1 where c: "sdk_start_copy_from_url sdk dc name sc name (cloud w) = (x, s1)"
    by (cases "sdk_start_copy_from_url sdk dc name sc name (cloud w)")
  show thesis
  proof (cases x)
    case (Inl e)
    with c g1 g2 that(2)[of e s1] show thesis by (simp add: io_adv move_all_loop.simps)
  next
    case (Inr u)
    with c have c': "sdk_start_copy_from_url sdk dc name sc name (cloud w) = (Inr (), s1)"
      by simp
    show thesis
    proof (cases "fst (wait_outcome sdk dc name s1)")
      case (Inl e)
      with c' g1 g2 that(3)[of s1 e] show thesis by (simp add: io_adv move_all_loop.simps)
    next
      case ok: (Inr ok)
      show thesis
      proof (cases ok)
        case False
        with ok c' g1 g2 that(6)[of s1] show thesis by (simp add: io_adv move_all_loop.simps)
      next
        case True
        obtain y s3 where d:
          "sdk_delete_blob sdk sc name (snd (snd (wait_outcome sdk dc name s1))) = (y, s3)"
          by (cases "sdk_delete_blob sdk sc name (snd (snd (wait_outcome sdk dc name s1)))")
        show thesis
        proof (cases y)
          case (Inl e)
          with True ok c' d g1 g2 that(4)[of s1 e s3] show thesis by (simp add: io_adv move_all_loop.simps)
        next
          case (Inr u')
          with True ok c' d g1 g2 that(5)[of s1 s3] show thesis
            by (simp add: io_adv move_all_loop.simps)
        qed
      qed
    qed
  qed
  qed
qed

lemma advance_id [simp]: "advance w [] (cloud w) = w"
  by (simp add: advance_def)

lemma copy_calls_simps:
  "copy_calls [] = []"
  "copy_calls (ev # evs) = (if is_copy ev then ev # copy_calls evs else copy_calls evs)"
  "copy_calls (evs @ evs') = copy_calls evs @ copy_calls evs'"
  by (simp_all add: copy_calls_def)

lemma delete_calls_simps:
  "delete_calls [] = []"
  "delete_calls (ev # evs) = (if is_delete ev then ev # delete_calls evs else delete_calls evs)"
  "delete_calls (evs @ evs') = delete_calls evs @ delete_calls evs'"
  by (simp_all add: delete_calls_def)

lemma success_reports_simps:
  "success_reports [] = []"
  "success_reports (ev # evs) =
     (if ev = Print MsgCopyCompleted then ev # success_reports evs else success_reports evs)"
  "success_reports (evs @ evs') = success_reports evs @ success_reports evs'"
  by (simp_all add: success_reports_def)

lemma error_reports_simps:
  "error_reports [] = []"
  "error_reports (ev # evs) =
     (if is_error_report ev then ev # error_reports evs else error_reports evs)"
  "error_reports (evs @ evs') = error_reports evs @ error_reports evs'"
  by (simp_all add: error_reports_def)

lemmas count_simps =
  copy_calls_simps delete_calls_simps success_reports_simps error_reports_simps
  wait_outcome_events

lemma move_all_loop_counts:
  "\<exists>evs s. snd (move_all_loop sdk sc dc tot i blobs w) = advance w evs s \<and>
     length (delete_calls evs) = length (success_reports evs) \<and>
     length (copy_calls evs) \<le> length blobs \<and>
     copy_calls evs = map (\<lambda>n. StartCopy dc n sc n) (take (length (copy_calls evs)) blobs) \<and>
     (fst (move_all_loop sdk sc dc tot i blobs w) = Inr () \<longrightarrow>
        length (copy_calls evs) = length blobs) \<and>
     error_reports evs = []"
proof (induction blobs arbitrary: i w)
  case Nil
  show ?case
    by (intro exI[of _ "[]"] exI[of _ "cloud w"])
       (simp add: return_io_def count_simps move_all_loop.simps)
next
  case (Cons name rest)
  show ?case
  proof (cases rule: move_all_loop_cases[of sdk sc name dc tot i rest w])
    case (client_raises e)
    show ?thesis
      by (intro exI[of _ "[Print (MsgMoving (i + 1) tot name)]"] exI[of _ "cloud w"])
         (simp add: client_raises(2) count_simps)
  next
    case (copy_raises e s1)
    show ?thesis
      by (intro exI[of _ "[Print (MsgMoving (i + 1) tot name), StartCopy dc name sc name]"]
            exI[of _ s1])
         (simp add: copy_raises(2) count_simps)
  next
    case (wait_raises s1 e)
    show ?thesis
      by (intro exI[of _ "[Print (MsgMoving (i + 1) tot name), StartCopy dc name sc name] @
                fst (snd (wait_outcome sdk dc name s1))"]
            exI[of _ "snd (snd (wait_outcome sdk dc name s1))"])
         (simp add: wait_raises(2,3) count_simps)
  next
    case (delete_raises s1 e s3)
    show ?thesis
      by (intro exI[of _ "[Print (MsgMoving (i + 1) tot name), StartCopy dc name sc name] @
                fst (snd (wait_outcome sdk dc name s1)) @
                [Print (MsgDeletingOriginal name), DeleteBlob sc name]"]
            exI[of _ s3])
         (simp add: delete_raises(2,4) count_simps)
  next
    case (moved s1 s3)
    let ?A = "[Print (MsgMoving (i + 1) tot name), StartCopy dc name sc name] @
              fst (snd (wait_outcome sdk dc name s1)) @
              [Print (MsgDeletingOriginal name), DeleteBlob sc name]"
    from Cons.IH[of "i + 1" "advance w ?A s3"] obtain evs s where
      w': "snd (move_all_loop sdk sc dc tot (i + 1) rest (advance w ?A s3)) =
             advance (advance w ?A s3) evs s"
      and d: "length (delete_calls evs) = length (success_reports evs)"
      and c: "length (copy_calls evs) \<le> length rest"
      and p: "copy_calls evs =
                map (\<lambda>n. StartCopy dc n sc n) (take (length (copy_calls evs)) rest)"
      and f: "fst (move_all_loop sdk sc dc tot (i + 1) rest (advance w ?A s3)) = Inr () \<longrightarrow>
                length (copy_calls evs) = length rest"
      and r: "error_reports evs = []"
      by blast
    have "snd (move_all_loop sdk sc dc tot i (name # rest) w) = advance w (?A @ evs) s"
      using w' by (simp add: moved(4))
    moreover have "length (delete_calls (?A @ evs)) = length (success_reports (?A @ evs))"
      using d by (simp add: count_simps moved(2))
    moreover have "length (copy_calls (?A @ evs)) \<le> length (name # rest)"
      using c by (simp add: count_simps)
    moreover have "copy_calls (?A @ evs) =
        map (\<lambda>n. StartCopy dc n sc n) (take (length (copy_calls (?A @ evs))) (name # rest))"
      using p by (simp add: count_simps)
    moreover have "fst (move_all_loop sdk sc dc tot i (name # rest) w) = Inr () \<longrightarrow>
        length (copy_calls (?A @ evs)) = length (name # rest)"
      using f by (simp add: count_simps moved(4))
    moreover have "error_reports (?A @ evs) = []"
      using r by (simp add: count_simps)
    ultimately show ?thesis by blast
  next
    case (skipped s1)
    let ?A = "[Print (MsgMoving (i + 1) tot name), StartCopy dc name sc name] @
              fst (snd (wait_outcome sdk dc name s1)) @ [Print (MsgFailedToMove name)]"
    let ?s = "snd (snd (wait_outcome sdk dc name s1))"
    from Cons.IH[of "i + 1" "advance w ?A ?s"] obtain evs s where
      w': "snd (move_all_loop sdk sc dc tot (i + 1) rest (advance w ?A ?s)) =
             advance (advance w ?A ?s) evs s"
      and d: "length (delete_calls evs) = length (success_reports evs)"
      and c: "length (copy_calls evs) \<le> length rest"
      and p: "copy_calls evs =
                map (\<lambda>n. StartCopy dc n sc n) (take (length (copy_calls evs)) rest)"
      and f: "fst (move_all_loop sdk sc dc tot (i + 1) rest (advance w ?A ?s)) = Inr () \<longrightarrow>
                length (copy_calls evs) = length rest"
      and r: "error_reports evs = []"
      by blast
    have "snd (move_all_loop sdk sc dc tot i (name # rest) w) = advance w (?A @ evs) s"
      using w' by (simp add: skipped(3))
    moreover have "length (delete_calls (?A @ evs)) = length (success_reports (?A @ evs))"
      using d by (simp add: count_simps skipped(2))
    moreover have "length (copy_calls (?A @ evs)) \<le> length (name # rest)"
      using c by (simp add: count_simps)
    moreover have "copy_calls (?A @ evs) =
        map (\<lambda>n. StartCopy dc n sc n) (take (length (copy_calls (?A @ evs))) (name # rest))"
      using p by (simp add: count_simps)
    moreover have "fst (move_all_loop sdk sc dc tot i (name # rest) w) = Inr () \<longrightarrow>
        length (copy_calls (?A @ evs)) = length (name # rest)"
      using f by (simp add: count_simps skipped(3))
    moreover have "error_reports (?A @ evs) = []"
      using r by (simp add: count_simps)
    ultimately show ?thesis by blast
  qed
qed

lemma move_all_blobs_confirmed:
  "inputs w = sc # dc # confirm # rest \<Longrightarrow> confirm = ''y'' \<or> confirm = ''Y'' \<Longrightarrow>
   move_all_blobs sdk w =
     move_all_try sdk sc dc ((advance w [Print MsgMoveAllTitle] (cloud w))\<lparr>inputs := rest\<rparr>)"
proof -
  assume i: "inputs w = sc # dc # confirm # rest" and "confirm = ''y'' \<or> confirm = ''Y''"
  then have y: "str_lower confirm = ''y''" by (simp add: str_lower_y)
  from i y show ?thesis
    by (simp add: move_all_blobs_def io_adv input_line_def)
qed

lemma move_all_try_run:
  assumes g: "sdk_get_container_client sdk sc = Inr ()"
    and l: "sdk_list_blobs sdk sc (cloud w) = (Inr blobs, s1)"
  shows "\<exists>evs s. snd (move_all_try sdk sc dc w) = advance w (ListBlobs sc # evs) s \<and>
     length (delete_calls evs) = length (success_reports evs) \<and>
     length (copy_calls evs) \<le> length blobs \<and>
     copy_calls evs = map (\<lambda>n. StartCopy dc n sc n) (take (length (copy_calls evs)) blobs) \<and>
     (error_reports evs = [] \<longrightarrow> length (copy_calls evs) = length blobs) \<and>
     (error_reports evs \<noteq> [] \<longrightarrow> error_reports evs = [last evs])"
proof (cases "blobs = []")
  case True
  with l g show ?thesis
    by (intro exI[of _ "[Print (MsgNoBlobsFound sc)]"] exI[of _ s1])
       (simp add: move_all_try_def io_adv Let_def count_simps)
next
  case False
  let ?w1 = "advance w [ListBlobs sc, Print (MsgFoundToMove (length blobs))] s1"
  let ?run = "move_all_loop sdk sc dc (length blobs) 0 blobs ?w1"
  from move_all_loop_counts[of sdk sc dc "length blobs" 0 blobs ?w1] obtain evs s where
    w': "snd ?run = advance ?w1 evs s"
    and d: "length (delete_calls evs) = length (success_reports evs)"
    and c: "length (copy_calls evs) \<le> length blobs"
    and p: "copy_calls evs =
              map (\<lambda>n. StartCopy dc n sc n) (take (length (copy_calls evs)) blobs)"
    and f: "fst ?run = Inr () \<longrightarrow> length (copy_calls evs) = length blobs"
    and r: "error_reports evs = []"
    by blast
  show ?thesis
  proof (cases "fst ?run")
    case (Inl e)
    let ?m = "if is_resource_not_found e then MsgSourceContainerNotFound sc else MsgUnexpected e"
    let ?E = "Print (MsgFoundToMove (length blobs)) # evs @ [Print ?m]"
    have "snd (move_all_try sdk sc dc w) = advance w (ListBlobs sc # ?E) s"
      using l g False Inl w' by (simp add: move_all_try_def io_adv Let_def)
    moreover have "error_reports ?E = [last ?E]"
      using r by (simp add: count_simps)
    moreover have "length (delete_calls ?E) = length (success_reports ?E)"
      using d by (simp add: count_simps)
    moreover have "length (copy_calls ?E) \<le> length blobs"
      using c by (simp add: count_simps)
    moreover have "copy_calls ?E =
        map (\<lambda>n. StartCopy dc n sc n) (take (length (copy_calls ?E)) blobs)"
      using p by (simp add: count_simps)
    ultimately show ?thesis
      by (intro exI[of _ ?E] exI[of _ s]) simp
  next
    case (Inr u)
    let ?E = "Print (MsgFoundToMove (length blobs)) # evs @ [Print MsgAllMovesCompleted]"
    have "snd (move_all_try sdk sc dc w) = advance w (ListBlobs sc # ?E) s"
      using l g False Inr w' by (simp add: move_all_try_def io_adv Let_def)
    moreover have "length (delete_calls ?E) = length (success_reports ?E)"
      using d by (simp add: count_simps)
    moreover have "length (copy_calls ?E) = length blobs"
      using f Inr by (simp add: count_simps)
    moreover have "copy_calls ?E =
        map (\<lambda>n. StartCopy dc n sc n) (take (length (copy_calls ?E)) blobs)"
      using p by (simp add: count_simps)
    moreover have "error_reports ?E = []"
      using r by (simp add: count_simps)
    ultimately show ?thesis
      by (intro exI[of _ ?E] exI[of _ s]) simp
  qed
qed

text \<open>
  C6 (as amended). In a confirmed bulk move whose listing returns \<open>N\<close> blobs, the number of
  deletes sent equals the number of copies that \<^verbatim>\<open>wait_for_copy\<close> reported successful. The
  copy requests are those of the first \<open>k\<close> listed blobs, in the order of the listing, for
  some \<open>k\<close> up to \<open>N\<close>, and \<open>k\<close> is \<open>N\<close> when no \<^verbatim>\<open>except\<close> clause has run, that is, when
  nothing raised: a copy that \<^verbatim>\<open>wait_for_copy\<close> reports as failed skips only its own
  deletion. When something raises inside the loop the batch ends there: the run has a
  single error line and that line is its last event.
\<close>

theorem move_all_blobs_counts:
  assumes i: "inputs w = sc # dc # confirm # rest"
    and y: "confirm = ''y'' \<or> confirm = ''Y''"
    and g: "sdk_get_container_client sdk sc = Inr ()"
    and l: "sdk_list_blobs sdk sc (cloud w) = (Inr blobs, s1)"
  shows "length (delete_calls (new_events w (snd (move_all_blobs sdk w)))) =
           length (success_reports (new_events w (snd (move_all_blobs sdk w)))) \<and>
         length (copy_calls (new_events w (snd (move_all_blobs sdk w)))) \<le> length blobs \<and>
         copy_calls (new_events w (snd (move_all_blobs sdk w))) =
           map (\<lambda>n. StartCopy dc n sc n)
             (take (length (copy_calls (new_events w (snd (move_all_blobs sdk w))))) blobs) \<and>
         (error_reports (new_events w (snd (move_all_blobs sdk w))) = [] \<longrightarrow>
            length (copy_calls (new_events w (snd (move_all_blobs sdk w)))) = length blobs) \<and>
         (error_reports (new_events w (snd (move_all_blobs sdk w))) \<noteq> [] \<longrightarrow>
            error_reports (new_events w (snd (move_all_blobs sdk w))) =
              [last (new_events w (snd (move_all_blobs sdk w)))])"
proof -
  let ?w0 = "(advance w [Print MsgMoveAllTitle] (cloud w))\<lparr>inputs := rest\<rparr>"
  have l0: "sdk_list_blobs sdk sc (cloud ?w0) = (Inr blobs, s1)" using l by simp
  from move_all_try_run[OF g l0, of dc] obtain evs s where
    w': "snd (move_all_try sdk sc dc ?w0) = advance ?w0 (ListBlobs sc # evs) s"
    and d: "length (delete_calls evs) = length (success_reports evs)"
    and c: "length (copy_calls evs) \<le> length blobs"
    and p: "copy_calls evs =
              map (\<lambda>n. StartCopy dc n sc n) (take (length (copy_calls evs)) blobs)"
    and f: "error_reports evs = [] \<longrightarrow> length (copy_calls evs) = length blobs"
    and r: "error_reports evs \<noteq> [] \<longrightarrow> error_reports evs = [last evs]"
    by blast
  have "trace (snd (move_all_blobs sdk w)) =
      trace w @ Print MsgMoveAllTitle # ListBlobs sc # evs"
    by (simp add: move_all_blobs_confirmed[OF i y] w')
  then have "new_events w (snd (move_all_blobs sdk w)) =
      Print MsgMoveAllTitle # ListBlobs sc # evs"
    by (rule new_events_eq)
  with d c p f r show ?thesis by (auto simp add: count_simps)
qed

text \<open>
  C6 as stated (exactly \<open>N\<close> copy requests) fails when an SDK call raises inside the loop:
  with a destination container that does not exist the first copy request raises
  \<^verbatim>\<open>ResourceNotFoundError\<close>, the \<^verbatim>\<open>except\<close> clause around the loop runs, and the second of the
  two listed blobs is never attempted.
\<close>

theorem move_all_blobs_aborts_counterexample:
  "new_events (console [''src'', ''dst'', ''y''] [])
     (snd (move_all_blobs (demo_sdk True [''a.txt'', ''b.txt''] (Inl ResourceNotFoundError))
        (console [''src'', ''dst'', ''y''] []))) =
     [Print MsgMoveAllTitle, ListBlobs ''src'', Print (MsgFoundToMove 2),
      Print (MsgMoving 1 2 ''a.txt''), StartCopy ''dst'' ''a.txt'' ''src'' ''a.txt'',
      Print (MsgSourceContainerNotFound ''src'')] \<and>
   length (copy_calls (new_events (console [''src'', ''dst'', ''y''] [])
     (snd (move_all_blobs (demo_sdk True [''a.txt'', ''b.txt''] (Inl ResourceNotFoundError))
        (console [''src'', ''dst'', ''y''] []))))) \<noteq> length [''a.txt'', ''b.txt'']"
  by (simp add: move_all_blobs_def move_all_try_def move_all_loop.simps io_defs demo_eval
        str_lower_y copy_calls_def)

lemma requests_simps:
  "requests [] = []"
  "requests (ev # evs) = (if is_request ev then ev # requests evs else requests evs)"
  "requests (evs @ evs') = requests evs @ requests evs'"
  by (simp_all add: requests_def)

lemma without_exists_simps:
  "without_exists [] = []"
  "without_exists (ev # evs) =
     (if is_exists ev then without_exists evs else ev # without_exists evs)"
  "without_exists (evs @ evs') = without_exists evs @ without_exists evs'"
  by (simp_all add: without_exists_def)

lemma missing_reports_simps:
  "missing_reports [] = []"
  "missing_reports (ev # evs) =
     (if is_missing_report ev then ev # missing_reports evs else missing_reports evs)"
  "missing_reports (evs @ evs') = missing_reports evs @ missing_reports evs'"
  by (simp_all add: missing_reports_def)

lemmas trace_simps = count_simps requests_simps without_exists_simps missing_reports_simps

lemma move_specific_try_cases [case_names trouble moved failed]:
  obtains
    evs s where "move_specific_try sdk sc name dc w = (Inr (), advance w evs s)"
      and "error_reports evs \<noteq> [] \<or> missing_reports evs \<noteq> []"
  | s0 s1 s3 where "sdk_exists sdk sc name (cloud w) = (Inr True, s0)"
      and "sdk_start_copy_from_url sdk dc name sc name s0 = (Inr (), s1)"
      and "fst (wait_outcome sdk dc name s1) = Inr True"
      and "sdk_delete_blob sdk sc name (snd (snd (wait_outcome sdk dc name s1))) = (Inr (), s3)"
      and "move_specific_try sdk sc name dc w =
             (Inr (), advance w
                ([Exists sc name, Print (MsgStartingCopy name sc dc), StartCopy dc name sc name] @
                 fst (snd (wait_outcome sdk dc name s1)) @
                 [Print (MsgDeletingOriginalFrom name sc), DeleteBlob sc name,
                  Print MsgMoveCompleted]) s3)"
      and "sdk_get_blob_client sdk sc name = Inr ()"
      and "sdk_get_blob_client sdk dc name = Inr ()"
  | s0 s1 where "sdk_exists sdk sc name (cloud w) = (Inr True, s0)"
      and "sdk_start_copy_from_url sdk dc name sc name s0 = (Inr (), s1)"
      and "fst (wait_outcome sdk dc name s1) = Inr False"
      and "move_specific_try sdk sc name dc w =
             (Inr (), advance w
                ([Exists sc name, Print (MsgStartingCopy name sc dc), StartCopy dc name sc name] @
                 fst (snd (wait_outcome sdk dc name s1)) @ [Print MsgMoveFailed])
                (snd (snd (wait_outcome sdk dc name s1))))"
      and "sdk_get_blob_client sdk sc name = Inr ()"
      and "sdk_get_blob_client sdk dc name = Inr ()"
proof (cases "sdk_get_blob_client sdk sc name")
  case (Inl ex)
  let ?m = "if is_resource_not_found ex then MsgContainerOrBlobNotFound else MsgUnexpected ex"
  from Inl have "move_specific_try sdk sc name dc w = (Inr (), advance w [Print ?m] (cloud w))"
    by (simp add: move_specific_try_def io_adv)
  moreover have "error_reports [Print ?m] \<noteq> []"
    by (simp add: trace_simps)
  ultimately show thesis using that(1) by blast
next
  case g1: (Inr u1)
  obtain x s0 where e: "sdk_exists sdk sc name (cloud w) = (x, s0)"
    by (cases "sdk_exists sdk sc name (cloud w)")
  show thesis
  proof (cases x)
    case (Inl ex)
    let ?m = "if is_resource_not_found ex then MsgContainerOrBlobNotFound else MsgUnexpected ex"
    from e Inl g1 have "move_specific_try sdk sc name dc w =
        (Inr (), advance w [Exists sc name, Print ?m] s0)"
      by (simp add: move_specific_try_def io_adv)
    moreover have "error_reports [Exists sc name, Print ?m] \<noteq> []"
      by (simp add: trace_simps)
    ultimately show thesis using that(1) by blast
  next
    case (Inr found)
    show thesis
    proof (cases found)
      case False
      with e Inr g1 have "move_specific_try sdk sc name dc w =
          (Inr (), advance w [Exists sc name, Print (MsgBlobNotFound name sc)] s0)"
        by (simp add: move_specific_try_def io_adv)
      moreover have "missing_reports [Exists sc name, Print (MsgBlobNotFound name sc)] \<noteq> []"
        by (simp add: trace_simps)
      ultimately show thesis using that(1) by blast
    next
      case True
      with e Inr have e': "sdk_exists sdk sc name (cloud w) = (Inr True, s0)" by simp
      show thesis
      proof (cases "sdk_get_blob_client sdk dc name")
        case (Inl ex)
        let ?m = "if is_resource_not_found ex then MsgContainerOrBlobNotFound
                  else MsgUnexpected ex"
        from e' g1 Inl have "move_specific_try sdk sc name dc w =
            (Inr (), advance w [Exists sc name, Print ?m] s0)"
          by (simp add: move_specific_try_def io_adv)
        moreover have "error_reports [Exists sc name, Print ?m] \<noteq> []"
          by (simp add: trace_simps)
        ultimately show thesis using that(1) by blast
      next
        case g2: (Inr u2)
      obtain y s1 where c: "sdk_start_copy_from_url sdk dc name sc name s0 = (y, s1)"
        by (cases "sdk_start_copy_from_url sdk dc name sc name s0")
      let ?A = "[Exists sc name, Print (MsgStartingCopy name sc dc), StartCopy dc name sc name]"
      show thesis
      proof (cases y)
        case (Inl ex)
        let ?m = "if is_resource_not_found ex then MsgContainerOrBlobNotFound
                  else MsgUnexpected ex"
        from e' c Inl g1 g2 have "move_specific_try sdk sc name dc w =
            (Inr (), advance w (?A @ [Print ?m]) s1)"
          by (simp add: move_specific_try_def io_adv)
        moreover have "error_reports (?A @ [Print ?m]) \<noteq> []"
          by (simp add: trace_simps)
        ultimately show thesis using that(1) by blast
      next
        case (Inr u)
        with c have c': "sdk_start_copy_from_url sdk dc name sc name s0 = (Inr (), s1)"
          by simp
        let ?E = "fst (snd (wait_outcome sdk dc name s1))"
        let ?s2 = "snd (snd (wait_outcome sdk dc name s1))"
        show thesis
        proof (cases "fst (wait_outcome sdk dc name s1)")
          case (Inl ex)
          let ?m = "if is_resource_not_found ex then MsgContainerOrBlobNotFound
                    else MsgUnexpected ex"
          from e' c' Inl g1 g2 have "move_specific_try sdk sc name dc w =
              (Inr (), advance w (?A @ ?E @ [Print ?m]) ?s2)"
            by (simp add: move_specific_try_def io_adv)
          moreover have "error_reports (?A @ ?E @ [Print ?m]) \<noteq> []"
            by (simp add: trace_simps)
          ultimately show thesis using that(1) by blast
        next
          case ok: (Inr ok)
          show thesis
          proof (cases ok)
            case False
            with ok e' c' g1 g2 that(3)[of s0 s1] show thesis
              by (simp add: move_specific_try_def io_adv)
          next
            case True
            obtain z s3 where d: "sdk_delete_blob sdk sc name ?s2 = (z, s3)"
              by (cases "sdk_delete_blob sdk sc name ?s2")
            show thesis
            proof (cases z)
              case (Inl ex)
              let ?m = "if is_resource_not_found ex then MsgContainerOrBlobNotFound
                        else MsgUnexpected ex"
              let ?B = "?A @ ?E @ [Print (MsgDeletingOriginalFrom name sc), DeleteBlob sc name,
                                   Print ?m]"
              from e' c' ok True d Inl g1 g2 have "move_specific_try sdk sc name dc w =
                  (Inr (), advance w ?B s3)"
                by (simp add: move_specific_try_def io_adv)
              moreover have "error_reports ?B \<noteq> []"
                by (simp add: trace_simps)
              ultimately show thesis using that(1) by blast
            next
              case (Inr u')
              with ok True e' c' d g1 g2 that(2)[of s0 s1 s3] show thesis
                by (simp add: move_specific_try_def io_adv)
            qed
          qed
        qed
      qed
      qed
    qed
  qed
qed

lemma move_specific_try_advance:
  "\<exists>evs s. move_specific_try sdk sc name dc w = (Inr (), advance w evs s)"
  by (cases rule: move_specific_try_cases[of sdk sc name dc w]) blast+

lemma spec_move_each_advance:
  "\<exists>evs s. spec_move_each sdk sc dc blobs w = (Inr (), advance w evs s)"
proof (induction blobs arbitrary: w)
  case Nil
  show ?case
    by (intro exI[of _ "[]"] exI[of _ "cloud w"]) (simp add: return_io_def)
next
  case (Cons name rest)
  from move_specific_try_advance[of sdk sc name dc w] obtain a s where
    1: "move_specific_try sdk sc name dc w = (Inr (), advance w a s)" by blast
  from Cons.IH[of "advance w a s"] obtain b s' where
    2: "spec_move_each sdk sc dc rest (advance w a s) = (Inr (), advance (advance w a s) b s')"
    by blast
  from 1 2 show ?case
    by (intro exI[of _ "a @ b"] exI[of _ s']) (simp add: io_adv)
qed

lemma advance_inject:
  "advance w a s = advance w b t \<Longrightarrow> a = b \<and> s = t"
proof -
  assume eq: "advance w a s = advance w b t"
  then have "trace (advance w a s) = trace (advance w b t)"
    and "cloud (advance w a s) = cloud (advance w b t)"
    by simp_all
  then show ?thesis by simp
qed

declare spec_move_each.simps [simp del]

lemma spec_move_each_Cons:
  "move_specific_try sdk sc name dc v = (Inr (), v1) \<Longrightarrow>
   spec_move_each sdk sc dc (name # rest) v = spec_move_each sdk sc dc rest v1"
  by (simp add: spec_move_each.simps then_io_def bind_io_def)

lemma same_run:
  "m = (Inr (), advance v a s) \<Longrightarrow> m = (Inr (), advance v b t) \<Longrightarrow> b = a \<and> t = s"
  using advance_inject by (metis prod.inject)

lemma move_all_loop_refines:
  assumes pure: "\<forall>b s. snd (sdk_exists sdk sc b s) = s"
  shows "cloud v = cloud w \<Longrightarrow>
     spec_move_each sdk sc dc blobs v = (Inr (), advance v evs' s') \<Longrightarrow>
     error_reports evs' = [] \<Longrightarrow> missing_reports evs' = [] \<Longrightarrow>
     \<exists>evs. move_all_loop sdk sc dc tot i blobs w = (Inr (), advance w evs s') \<and>
           requests evs = without_exists (requests evs') \<and> error_reports evs = []"
proof (induction blobs arbitrary: v w i evs' s')
  case Nil
  have "spec_move_each sdk sc dc [] v = (Inr (), v)"
    by (simp add: spec_move_each.simps return_io_def)
  with Nil.prems(2) have eq: "advance v evs' s' = v" by (simp only: prod.inject)
  have "trace (advance v evs' s') = trace v" and "cloud (advance v evs' s') = cloud v"
    by (simp_all only: eq)
  then have "evs' = []" and "s' = cloud v" by simp_all
  with Nil.prems(1) show ?case
    by (intro exI[of _ "[]"]) (simp add: move_all_loop.simps return_io_def trace_simps)
next
  case (Cons name rest)
  show ?case
  proof (cases rule: move_specific_try_cases[of sdk sc name dc v])
    case (trouble a s)
    from spec_move_each_advance[of sdk sc dc rest "advance v a s"] obtain b t where
      "spec_move_each sdk sc dc rest (advance v a s) = (Inr (), advance (advance v a s) b t)"
      by blast
    then have "spec_move_each sdk sc dc (name # rest) v = (Inr (), advance v (a @ b) t)"
      by (simp add: spec_move_each_Cons[OF trouble(1)])
    from same_run[OF this Cons.prems(2)] have "evs' = a @ b" by simp
    with trouble(2) Cons.prems(3,4) show ?thesis by (simp add: trace_simps)
  next
    case (moved s0 s1 s3)
    let ?E = "fst (snd (wait_outcome sdk dc name s1))"
    let ?A = "[Exists sc name, Print (MsgStartingCopy name sc dc), StartCopy dc name sc name] @
              ?E @ [Print (MsgDeletingOriginalFrom name sc), DeleteBlob sc name,
                    Print MsgMoveCompleted]"
    let ?A' = "[Print (MsgMoving (i + 1) tot name), StartCopy dc name sc name] @ ?E @
               [Print (MsgDeletingOriginal name), DeleteBlob sc name]"
    from pure moved(1) have s0: "s0 = cloud w"
      using Cons.prems(1) by (metis snd_conv)
    from spec_move_each_advance[of sdk sc dc rest "advance v ?A s3"] obtain b t where
      r: "spec_move_each sdk sc dc rest (advance v ?A s3) =
            (Inr (), advance (advance v ?A s3) b t)"
      by blast
    from r have "spec_move_each sdk sc dc (name # rest) v = (Inr (), advance v (?A @ b) t)"
      by (simp add: spec_move_each_Cons[OF moved(5)])
    from same_run[OF this Cons.prems(2)] have evs': "evs' = ?A @ b" and t: "t = s'"
      by simp_all
    from evs' Cons.prems(3,4) have eb: "error_reports b = []" and mb: "missing_reports b = []"
      by (simp_all add: trace_simps)
    have c: "cloud (advance v ?A s3) = cloud (advance w ?A' s3)" by simp
    from r t have r': "spec_move_each sdk sc dc rest (advance v ?A s3) =
        (Inr (), advance (advance v ?A s3) b s')" by simp
    from Cons.IH[OF c r' eb mb, of "i + 1"] obtain evs1 where
      l: "move_all_loop sdk sc dc tot (i + 1) rest (advance w ?A' s3) =
            (Inr (), advance (advance w ?A' s3) evs1 s')"
      and q: "requests evs1 = without_exists (requests b)"
      and e1: "error_reports evs1 = []"
      by blast
    have step: "move_all_loop sdk sc dc tot i (name # rest) w =
        move_all_loop sdk sc dc tot (i + 1) rest (advance w ?A' s3)"
      using moved(2,3,4,6,7) s0 by (simp add: move_all_loop.simps io_adv)
    have "move_all_loop sdk sc dc tot i (name # rest) w = (Inr (), advance w (?A' @ evs1) s')"
      using step l by simp
    moreover have "requests (?A' @ evs1) = without_exists (requests evs')"
      using q by (simp add: evs' trace_simps)
    moreover have "error_reports (?A' @ evs1) = []"
      using e1 by (simp add: trace_simps)
    ultimately show ?thesis by blast
  next
    case (failed s0 s1)
    let ?E = "fst (snd (wait_outcome sdk dc name s1))"
    let ?s2 = "snd (snd (wait_outcome sdk dc name s1))"
    let ?A = "[Exists sc name, Print (MsgStartingCopy name sc dc), StartCopy dc name sc name] @
              ?E @ [Print MsgMoveFailed]"
    let ?A' = "[Print (MsgMoving (i + 1) tot name), StartCopy dc name sc name] @ ?E @
               [Print (MsgFailedToMove name)]"
    from pure failed(1) have s0: "s0 = cloud w"
      using Cons.prems(1) by (metis snd_conv)
    from spec_move_each_advance[of sdk sc dc rest "advance v ?A ?s2"] obtain b t where
      r: "spec_move_each sdk sc dc rest (advance v ?A ?s2) =
            (Inr (), advance (advance v ?A ?s2) b t)"
      by blast
    from r have "spec_move_each sdk sc dc (name # rest) v = (Inr (), advance v (?A @ b) t)"
      by (simp add: spec_move_each_Cons[OF failed(4)])
    from same_run[OF this Cons.prems(2)] have evs': "evs' = ?A @ b" and t: "t = s'"
      by simp_all
    from evs' Cons.prems(3,4) have eb: "error_reports b = []" and mb: "missing_reports b = []"
      by (simp_all add: trace_simps)
    have c: "cloud (advance v ?A ?s2) = cloud (advance w ?A' ?s2)" by simp
    from r t have r': "spec_move_each sdk sc dc rest (advance v ?A ?s2) =
        (Inr (), advance (advance v ?A ?s2) b s')" by simp
    from Cons.IH[OF c r' eb mb, of "i + 1"] obtain evs1 where
      l: "move_all_loop sdk sc dc tot (i + 1) rest (advance w ?A' ?s2) =
            (Inr (), advance (advance w ?A' ?s2) evs1 s')"
      and q: "requests evs1 = without_exists (requests b)"
      and e1: "error_reports evs1 = []"
      by blast
    have step: "move_all_loop sdk sc dc tot i (name # rest) w =
        move_all_loop sdk sc dc tot (i + 1) rest (advance w ?A' ?s2)"
      using failed(2,3,5,6) s0 by (simp add: move_all_loop.simps io_adv)
    have "move_all_loop sdk sc dc tot i (name # rest) w = (Inr (), advance w (?A' @ evs1) s')"
      using step l by simp
    moreover have "requests (?A' @ evs1) = without_exists (requests evs')"
      using q by (simp add: evs' trace_simps)
    moreover have "error_reports (?A' @ evs1) = []"
      using e1 by (simp add: trace_simps)
    ultimately show ?thesis by blast
  qed
qed

lemma spec_bulk_move_raises:
  "sdk_get_container_client sdk sc = Inr () \<Longrightarrow>
   sdk_list_blobs sdk sc (cloud v) = (Inl ex, s1) \<Longrightarrow>
   spec_bulk_move sdk sc dc v = (Inl ex, advance v [ListBlobs sc] s1)"
  by (simp add: spec_bulk_move_def io_adv)

lemma spec_bulk_move_lists:
  "sdk_get_container_client sdk sc = Inr () \<Longrightarrow>
   sdk_list_blobs sdk sc (cloud v) = (Inr blobs, s1) \<Longrightarrow>
   spec_bulk_move sdk sc dc v = spec_move_each sdk sc dc blobs (advance v [ListBlobs sc] s1)"
  by (simp add: spec_bulk_move_def io_adv)

lemma move_all_try_raises:
  "sdk_get_container_client sdk sc = Inr () \<Longrightarrow>
   sdk_list_blobs sdk sc (cloud w) = (Inl ex, s1) \<Longrightarrow>
   move_all_try sdk sc dc w =
     (Inr (), advance w
        [ListBlobs sc,
         Print (if is_resource_not_found ex then MsgSourceContainerNotFound sc
                else MsgUnexpected ex)] s1)"
  by (simp add: move_all_try_def io_adv)

lemma move_all_try_empty:
  "sdk_get_container_client sdk sc = Inr () \<Longrightarrow>
   sdk_list_blobs sdk sc (cloud w) = (Inr [], s1) \<Longrightarrow>
   move_all_try sdk sc dc w = (Inr (), advance w [ListBlobs sc, Print (MsgNoBlobsFound sc)] s1)"
  by (simp add: move_all_try_def io_adv)

lemma move_all_try_completes:
  "sdk_get_container_client sdk sc = Inr () \<Longrightarrow>
   sdk_list_blobs sdk sc (cloud w) = (Inr blobs, s1) \<Longrightarrow> blobs \<noteq> [] \<Longrightarrow>
   move_all_loop sdk sc dc (length blobs) 0 blobs
     (advance w [ListBlobs sc, Print (MsgFoundToMove (length blobs))] s1) =
     (Inr (), advance (advance w [ListBlobs sc, Print (MsgFoundToMove (length blobs))] s1) evs s') \<Longrightarrow>
   move_all_try sdk sc dc w =
     (Inr (), advance w
        (ListBlobs sc # Print (MsgFoundToMove (length blobs)) # evs @ [Print MsgAllMovesCompleted])
        s')"
  by (simp add: move_all_try_def io_adv Let_def)

lemma spec_bulk_move_refused:
  "sdk_get_container_client sdk sc = Inl ex \<Longrightarrow> spec_bulk_move sdk sc dc v = (Inl ex, v)"
  by (simp add: spec_bulk_move_def io_adv)

lemma move_all_try_refused:
  "sdk_get_container_client sdk sc = Inl ex \<Longrightarrow>
   move_all_try sdk sc dc w =
     (Inr (), advance w
        [Print (if is_resource_not_found ex then MsgSourceContainerNotFound sc
                else MsgUnexpected ex)] (cloud w))"
  by (simp add: move_all_try_def io_adv)

text \<open>
  C7 (as amended). Let the existence check be a pure query, and let the per-item workflow
  of the specification, run from the same service state, find every blob and meet no
  exception. Then a confirmed \<^verbatim>\<open>move_all_blobs\<close> sends the same requests in the same order,
  less the existence checks, which it never makes, and leaves the same service state.
\<close>

theorem move_all_blobs_refines_spec:
  assumes i: "inputs w = sc # dc # confirm # rest"
    and y: "confirm = ''y'' \<or> confirm = ''Y''"
    and pure: "\<forall>b s. snd (sdk_exists sdk sc b s) = s"
    and v: "cloud v = cloud w"
    and e: "error_reports (new_events v (snd (spec_bulk_move sdk sc dc v))) = []"
    and m: "missing_reports (new_events v (snd (spec_bulk_move sdk sc dc v))) = []"
  shows "requests (new_events w (snd (move_all_blobs sdk w))) =
           without_exists (requests (new_events v (snd (spec_bulk_move sdk sc dc v)))) \<and>
         cloud (snd (move_all_blobs sdk w)) = cloud (snd (spec_bulk_move sdk sc dc v))"
proof -
  let ?w0 = "(advance w [Print MsgMoveAllTitle] (cloud w))\<lparr>inputs := rest\<rparr>"
  note run = move_all_blobs_confirmed[OF i y, of sdk]
  have t0: "trace ?w0 = trace w @ [Print MsgMoveAllTitle]" by simp
  have c0: "cloud ?w0 = cloud v" using v by simp
  obtain x s1 where l: "sdk_list_blobs sdk sc (cloud v) = (x, s1)"
    by (cases "sdk_list_blobs sdk sc (cloud v)")
  have shape: "\<And>evs s. snd (move_all_try sdk sc dc ?w0) = advance ?w0 evs s \<Longrightarrow>
      new_events w (snd (move_all_blobs sdk w)) = Print MsgMoveAllTitle # evs \<and>
      cloud (snd (move_all_blobs sdk w)) = s"
  proof -
    fix evs s
    assume a: "snd (move_all_try sdk sc dc ?w0) = advance ?w0 evs s"
    have "trace (snd (move_all_blobs sdk w)) = trace w @ Print MsgMoveAllTitle # evs"
      by (simp add: run a)
    then have "new_events w (snd (move_all_blobs sdk w)) = Print MsgMoveAllTitle # evs"
      by (rule new_events_eq)
    moreover have "cloud (snd (move_all_blobs sdk w)) = s" by (simp add: run a)
    ultimately show "new_events w (snd (move_all_blobs sdk w)) = Print MsgMoveAllTitle # evs \<and>
      cloud (snd (move_all_blobs sdk w)) = s" by blast
  qed
  show ?thesis
  proof (cases "sdk_get_container_client sdk sc")
    case (Inl ex)
    let ?m = "if is_resource_not_found ex then MsgSourceContainerNotFound sc
              else MsgUnexpected ex"
    from Inl have sp: "spec_bulk_move sdk sc dc v = (Inl ex, v)"
      by (rule spec_bulk_move_refused)
    have "snd (move_all_try sdk sc dc ?w0) = advance ?w0 [Print ?m] (cloud ?w0)"
      by (simp add: move_all_try_refused[OF Inl])
    from shape[OF this] v show ?thesis
      by (simp add: sp new_events_def trace_simps)
  next
    case (Inr u)
    then have g: "sdk_get_container_client sdk sc = Inr ()" by simp
  show ?thesis
  proof (cases x)
    case (Inl ex)
    from l Inl c0 have l0: "sdk_list_blobs sdk sc (cloud ?w0) = (Inl ex, s1)" by simp
    from l Inl have sp: "spec_bulk_move sdk sc dc v = (Inl ex, advance v [ListBlobs sc] s1)"
      by (simp add: spec_bulk_move_raises[OF g])
    from shape[of _ s1] move_all_try_raises[OF g l0, of dc] show ?thesis
      by (simp add: sp trace_simps)
  next
    case (Inr blobs)
    from l Inr c0 have l0: "sdk_list_blobs sdk sc (cloud ?w0) = (Inr blobs, s1)" by simp
    let ?v1 = "advance v [ListBlobs sc] s1"
    from l Inr have sp: "spec_bulk_move sdk sc dc v = spec_move_each sdk sc dc blobs ?v1"
      by (simp add: spec_bulk_move_lists[OF g])
    from spec_move_each_advance[of sdk sc dc blobs ?v1] obtain b s' where
      sr: "spec_move_each sdk sc dc blobs ?v1 = (Inr (), advance ?v1 b s')"
      by blast
    have ne: "new_events v (snd (spec_bulk_move sdk sc dc v)) = ListBlobs sc # b"
      by (simp add: sp sr)
    from e m ne have eb: "error_reports b = []" and mb: "missing_reports b = []"
      by (simp_all add: trace_simps)
    have cs: "cloud (snd (spec_bulk_move sdk sc dc v)) = s'" by (simp add: sp sr)
    show ?thesis
    proof (cases "blobs = []")
      case True
      have "spec_move_each sdk sc dc [] ?v1 = (Inr (), ?v1)"
        by (simp add: spec_move_each.simps return_io_def)
      with sr True have eq: "advance ?v1 b s' = ?v1" by (simp only: prod.inject)
      have "trace (advance ?v1 b s') = trace ?v1" and "cloud (advance ?v1 b s') = cloud ?v1"
        by (simp_all only: eq)
      then have b: "b = []" and s': "s' = s1" by simp_all
      from shape[of _ s1] move_all_try_empty[OF g l0[unfolded True], of dc] show ?thesis
        by (simp add: ne cs b s' trace_simps)
    next
      case False
      let ?w1 = "advance ?w0 [ListBlobs sc, Print (MsgFoundToMove (length blobs))] s1"
      have c1: "cloud ?v1 = cloud ?w1" by simp
      from move_all_loop_refines[OF pure c1 sr eb mb, of "length blobs" 0] obtain evs where
        lp: "move_all_loop sdk sc dc (length blobs) 0 blobs ?w1 = (Inr (), advance ?w1 evs s')"
        and q: "requests evs = without_exists (requests b)"
        by blast
      from shape[of _ s'] move_all_try_completes[OF g l0 False lp] q show ?thesis
        by (simp add: ne cs trace_simps)
    qed
  qed
  qed
qed

lemmas bulk_eval =
  move_all_blobs_def move_all_try_def move_all_loop.simps spec_bulk_move_def
  spec_move_each.simps move_specific_try_def io_defs demo_eval str_lower_y

text \<open>
  C7 as stated (the single-object workflow with its existence check) fails on a container
  of one blob: the specified workflow asks whether the blob exists, \<^verbatim>\<open>move_all_blobs\<close>
  does not.
\<close>

theorem move_all_blobs_skips_existence_check_counterexample:
  "requests (new_events (console [''src'', ''dst'', ''y''] [''success''])
     (snd (move_all_blobs (demo_sdk True [''x.txt''] (Inr ()))
        (console [''src'', ''dst'', ''y''] [''success''])))) =
     [ListBlobs ''src'', StartCopy ''dst'' ''x.txt'' ''src'' ''x.txt'', GetProps ''dst'' ''x.txt'',
      DeleteBlob ''src'' ''x.txt''] \<and>
   requests (new_events (console [] [''success''])
     (snd (spec_bulk_move (demo_sdk True [''x.txt''] (Inr ())) ''src'' ''dst''
        (console [] [''success''])))) =
     [ListBlobs ''src'', Exists ''src'' ''x.txt'',
      StartCopy ''dst'' ''x.txt'' ''src'' ''x.txt'', GetProps ''dst'' ''x.txt'',
      DeleteBlob ''src'' ''x.txt''] \<and>
   requests (new_events (console [''src'', ''dst'', ''y''] [''success''])
     (snd (move_all_blobs (demo_sdk True [''x.txt''] (Inr ()))
        (console [''src'', ''dst'', ''y''] [''success''])))) \<noteq>
   requests (new_events (console [] [''success''])
     (snd (spec_bulk_move (demo_sdk True [''x.txt''] (Inr ())) ''src'' ''dst''
        (console [] [''success'']))))"
  by (simp add: bulk_eval requests_def)

text \<open>
  A batch of two: the first copy succeeds and its source is deleted, the second fails and
  only its deletion is skipped.
\<close>

lemma move_all_blobs_mixed_run:
  "new_events (console [''src'', ''dst'', ''y''] [''success'', ''failed''])
     (snd (move_all_blobs (demo_sdk True [''a.txt'', ''b.txt''] (Inr ()))
        (console [''src'', ''dst'', ''y''] [''success'', ''failed'']))) =
     [Print MsgMoveAllTitle, ListBlobs ''src'', Print (MsgFoundToMove 2),
      Print (MsgMoving 1 2 ''a.txt''), StartCopy ''dst'' ''a.txt'' ''src'' ''a.txt'',
      GetProps ''dst'' ''a.txt'', Print (MsgCopyStatus ''success''), Print MsgCopyCompleted,
      Print (MsgDeletingOriginal ''a.txt''), DeleteBlob ''src'' ''a.txt'',
      Print (MsgMoving 2 2 ''b.txt''), StartCopy ''dst'' ''b.txt'' ''src'' ''b.txt'',
      GetProps ''dst'' ''b.txt'', Print (MsgCopyStatus ''failed''),
      Print (MsgCopyFailed ''failed''), Print (MsgErrorDetails []),
      Print (MsgFailedToMove ''b.txt''), Print MsgAllMovesCompleted]"
  by (simp add: bulk_eval)

text \<open>With an empty source container name the container client is refused: no request.\<close>

lemma move_all_blobs_empty_source_run:
  "new_events (console [[], ''dst'', ''y''] [''success''])
     (snd (move_all_blobs (demo_sdk True [''a.txt''] (Inr ()))
        (console [[], ''dst'', ''y''] [''success'']))) =
     [Print MsgMoveAllTitle, Print (MsgUnexpected ValueError)]"
  by (simp add: bulk_eval)

theorem move_all_blobs_counts_witness:
  "inputs (console [''src'', ''dst'', ''y''] [''success'', ''failed'']) =
     ''src'' # ''dst'' # ''y'' # [] \<and>
   sdk_list_blobs (demo_sdk True [''a.txt'', ''b.txt''] (Inr ())) ''src''
     (cloud (console [''src'', ''dst'', ''y''] [''success'', ''failed''])) =
     (Inr [''a.txt'', ''b.txt''], [''success'', ''failed'']) \<and>
   error_reports (new_events (console [''src'', ''dst'', ''y''] [''success'', ''failed''])
     (snd (move_all_blobs (demo_sdk True [''a.txt'', ''b.txt''] (Inr ()))
        (console [''src'', ''dst'', ''y''] [''success'', ''failed''])))) = [] \<and>
   length (copy_calls (new_events (console [''src'', ''dst'', ''y''] [''success'', ''failed''])
     (snd (move_all_blobs (demo_sdk True [''a.txt'', ''b.txt''] (Inr ()))
        (console [''src'', ''dst'', ''y''] [''success'', ''failed''])))))
     = length [''a.txt'', ''b.txt''] \<and>
   length (delete_calls (new_events (console [''src'', ''dst'', ''y''] [''success'', ''failed''])
     (snd (move_all_blobs (demo_sdk True [''a.txt'', ''b.txt''] (Inr ()))
        (console [''src'', ''dst'', ''y''] [''success'', ''failed''])))))
     = length (success_reports
        (new_events (console [''src'', ''dst'', ''y''] [''success'', ''failed''])
          (snd (move_all_blobs (demo_sdk True [''a.txt'', ''b.txt''] (Inr ()))
             (console [''src'', ''dst'', ''y''] [''success'', ''failed''])))))  \<and>
   copy_calls (new_events (console [''src'', ''dst'', ''y''] [])
     (snd (move_all_blobs (demo_sdk True [''a.txt'', ''b.txt''] (Inl ResourceNotFoundError))
        (console [''src'', ''dst'', ''y''] [])))) =
     [StartCopy ''dst'' ''a.txt'' ''src'' ''a.txt''] \<and>
   error_reports (new_events (console [''src'', ''dst'', ''y''] [])
     (snd (move_all_blobs (demo_sdk True [''a.txt'', ''b.txt''] (Inl ResourceNotFoundError))
        (console [''src'', ''dst'', ''y''] [])))) =
     [last (new_events (console [''src'', ''dst'', ''y''] [])
     (snd (move_all_blobs (demo_sdk True [''a.txt'', ''b.txt''] (Inl ResourceNotFoundError))
        (console [''src'', ''dst'', ''y''] []))))]"
proof -
  have i: "inputs (console [''src'', ''dst'', ''y''] [''success'', ''failed'']) =
     ''src'' # ''dst'' # ''y'' # []"
    by (simp add: console_def)
  have y: "''y'' = ''y'' \<or> ''y'' = ''Y''" by simp
  have l: "sdk_list_blobs (demo_sdk True [''a.txt'', ''b.txt''] (Inr ())) ''src''
     (cloud (console [''src'', ''dst'', ''y''] [''success'', ''failed''])) =
     (Inr [''a.txt'', ''b.txt''], [''success'', ''failed''])"
    by (simp add: console_def demo_sdk_def)
  have e: "error_reports (new_events (console [''src'', ''dst'', ''y''] [''success'', ''failed''])
     (snd (move_all_blobs (demo_sdk True [''a.txt'', ''b.txt''] (Inr ()))
        (console [''src'', ''dst'', ''y''] [''success'', ''failed''])))) = []"
    by (simp add: bulk_eval error_reports_def)
  have g: "sdk_get_container_client (demo_sdk True [''a.txt'', ''b.txt''] (Inr ())) ''src'' =
      Inr ()"
    by (simp add: demo_sdk_def)
  have i2: "inputs (console [''src'', ''dst'', ''y''] ([] :: string list)) =
     ''src'' # ''dst'' # ''y'' # []"
    by (simp add: console_def)
  have g2: "sdk_get_container_client
      (demo_sdk True [''a.txt'', ''b.txt''] (Inl ResourceNotFoundError)) ''src'' = Inr ()"
    by (simp add: demo_sdk_def)
  have l2: "sdk_list_blobs (demo_sdk True [''a.txt'', ''b.txt''] (Inl ResourceNotFoundError))
      ''src'' (cloud (console [''src'', ''dst'', ''y''] [])) = (Inr [''a.txt'', ''b.txt''], [])"
    by (simp add: console_def demo_sdk_def)
  have c2: "copy_calls (new_events (console [''src'', ''dst'', ''y''] [])
     (snd (move_all_blobs (demo_sdk True [''a.txt'', ''b.txt''] (Inl ResourceNotFoundError))
        (console [''src'', ''dst'', ''y''] [])))) =
     [StartCopy ''dst'' ''a.txt'' ''src'' ''a.txt'']"
    by (simp add: bulk_eval copy_calls_def)
  have e2: "error_reports (new_events (console [''src'', ''dst'', ''y''] [])
     (snd (move_all_blobs (demo_sdk True [''a.txt'', ''b.txt''] (Inl ResourceNotFoundError))
        (console [''src'', ''dst'', ''y''] [])))) \<noteq> []"
    by (simp add: bulk_eval error_reports_def)
  from i l e c2 e2 move_all_blobs_counts[OF i y g l] move_all_blobs_counts[OF i2 y g2 l2]
  show ?thesis by simp
qed

theorem move_all_blobs_refines_spec_witness:
  "inputs (console [''src'', ''dst'', ''y''] [''success'', ''failed'']) =
     ''src'' # ''dst'' # ''y'' # [] \<and>
   (\<forall>b s. snd (sdk_exists (demo_sdk True [''a.txt'', ''b.txt''] (Inr ())) ''src'' b s) = s) \<and>
   error_reports (new_events (console [] [''success'', ''failed''])
     (snd (spec_bulk_move (demo_sdk True [''a.txt'', ''b.txt''] (Inr ())) ''src'' ''dst''
        (console [] [''success'', ''failed''])))) = [] \<and>
   missing_reports (new_events (console [] [''success'', ''failed''])
     (snd (spec_bulk_move (demo_sdk True [''a.txt'', ''b.txt''] (Inr ())) ''src'' ''dst''
        (console [] [''success'', ''failed''])))) = [] \<and>
   requests (new_events (console [''src'', ''dst'', ''y''] [''success'', ''failed''])
     (snd (move_all_blobs (demo_sdk True [''a.txt'', ''b.txt''] (Inr ()))
        (console [''src'', ''dst'', ''y''] [''success'', ''failed''])))) =
   without_exists (requests (new_events (console [] [''success'', ''failed''])
     (snd (spec_bulk_move (demo_sdk True [''a.txt'', ''b.txt''] (Inr ())) ''src'' ''dst''
        (console [] [''success'', ''failed''])))))"
proof -
  have i: "inputs (console [''src'', ''dst'', ''y''] [''success'', ''failed'']) =
     ''src'' # ''dst'' # ''y'' # []"
    by (simp add: console_def)
  have y: "''y'' = ''y'' \<or> ''y'' = ''Y''" by simp
  have p: "\<forall>b s. snd (sdk_exists (demo_sdk True [''a.txt'', ''b.txt''] (Inr ())) ''src'' b s) = s"
    by (simp add: demo_sdk_def)
  have v: "cloud (console [] [''success'', ''failed'']) =
      cloud (console [''src'', ''dst'', ''y''] [''success'', ''failed''])"
    by (simp add: console_def)
  have e: "error_reports (new_events (console [] [''success'', ''failed''])
     (snd (spec_bulk_move (demo_sdk True [''a.txt'', ''b.txt''] (Inr ())) ''src'' ''dst''
        (console [] [''success'', ''failed''])))) = []"
    by (simp add: bulk_eval error_reports_def)
  have m: "missing_reports (new_events (console [] [''success'', ''failed''])
     (snd (spec_bulk_move (demo_sdk True [''a.txt'', ''b.txt''] (Inr ())) ''src'' ''dst''
        (console [] [''success'', ''failed''])))) = []"
    by (simp add: bulk_eval missing_reports_def)
  from i p e m move_all_blobs_refines_spec[OF i y p v e m] show ?thesis by blast
qed

end
